theory Spec2Isabelle
  imports Complex_Main "HOL-Library.Word"
begin

section \<open>FeatureLens: record model, windowed aggregation, threshold evaluation, orchestration\<close>

text \<open>
  A shallow embedding of the Go packages \<open>message\<close> and \<open>pipeline\<close>.

  \<^item> Go's \<open>int64\<close> (and \<open>int\<close> on a 64-bit target) is \<open>64 word\<close>: \<open>+\<close> and \<open>-\<close> wrap,
    \<open>sint\<close> reads the signed value.
  \<^item> \<open>float64\<close> is a type parameter \<open>'f\<close>. Its arithmetic, comparisons, \<open>math.NaN\<close>,
    \<open>math.IsNaN\<close>, \<open>math.Sqrt\<close> and the conversion \<open>float64(int64)\<close> are passed to every
    function in a record \<open>runtime\<close>; nothing is assumed about them unless a theorem says so,
    so a theorem holds for IEEE 754 binary64 as for any other reading.
  \<^item> \<open>time.Time\<close> is an \<open>int\<close>, the nanoseconds since Go's zero time; \<open>time.Duration\<close> is
    an \<open>int\<close> of nanoseconds. The finite range of both is not modelled.
  \<^item> A Go map is a partial function. The order in which \<open>range\<close> visits the keys of a
    map is chosen by the Go runtime; every loop over a map takes that order as a list of
    keys.
  \<^item> The calculator's state is touched by its own goroutine only, so the mutex is not
    modelled and the state is passed explicitly. A pointer to a \<open>FeatureStats\<close> is the
    pair of keys under which it is stored; a write through the pointer is a write back
    at those keys.
  \<^item> Logging is a list of events, appended to.
\<close>

unbundle bit_operations_syntax

type_synonym int64 = "64 word"
type_synonym instant = int
type_synonym duration = int

subsection \<open>Package message\<close>

text \<open>The dynamic values an \<open>interface{}\<close> in a \<open>DynamicMessage\<close> can hold. A \<open>float32\<close> is
  held as its (exact) widening to \<open>float64\<close>.\<close>

datatype 'f val =
    VNil
  | VFloat64 'f
  | VInt int64
  | VInt64 int64
  | VFloat32 'f
  | VString string
  | VBool bool
  | VArray "'f val list"
  | VObject "(string \<times> 'f val) list"

type_synonym 'f DynamicMessage = "string \<rightharpoonup> 'f val"

text \<open>What the code takes from the Go runtime and standard library.\<close>

record 'f runtime =
  f_add :: "'f \<Rightarrow> 'f \<Rightarrow> 'f"
  f_sub :: "'f \<Rightarrow> 'f \<Rightarrow> 'f"
  f_mul :: "'f \<Rightarrow> 'f \<Rightarrow> 'f"
  f_div :: "'f \<Rightarrow> 'f \<Rightarrow> 'f"
  f_lt :: "'f \<Rightarrow> 'f \<Rightarrow> bool"
  f_le :: "'f \<Rightarrow> 'f \<Rightarrow> bool"
  f_nan :: "'f"
  f_isnan :: "'f \<Rightarrow> bool"
  f_sqrt :: "'f \<Rightarrow> 'f"
  f_of_int64 :: "int64 \<Rightarrow> 'f"
  f_zero :: "'f"
  f_neg_1e9 :: "'f"
  sprintf_v :: "'f val \<Rightarrow> string"

text \<open>\<open>a > b\<close> and \<open>a >= b\<close> on \<open>float64\<close> are \<open>b < a\<close> and \<open>b <= a\<close>.\<close>

definition f_gt :: "'f runtime \<Rightarrow> 'f \<Rightarrow> 'f \<Rightarrow> bool" where
  "f_gt rt a b = f_lt rt b a"

definition f_ge :: "'f runtime \<Rightarrow> 'f \<Rightarrow> 'f \<Rightarrow> bool" where
  "f_ge rt a b = f_le rt b a"

definition GetFloat64 :: "'f runtime \<Rightarrow> 'f DynamicMessage \<Rightarrow> string \<Rightarrow> 'f option" where
  "GetFloat64 rt dm key =
     (case dm key of
        None \<Rightarrow> None
      | Some VNil \<Rightarrow> None
      | Some (VFloat64 fVal) \<Rightarrow> Some fVal
      | Some (VInt v) \<Rightarrow> Some (f_of_int64 rt v)
      | Some (VInt64 v) \<Rightarrow> Some (f_of_int64 rt v)
      | Some (VFloat32 v) \<Rightarrow> Some v
      | Some _ \<Rightarrow> None)"

definition HasNonNull :: "'f DynamicMessage \<Rightarrow> string \<Rightarrow> bool" where
  "HasNonNull dm key = (case dm key of None \<Rightarrow> False | Some v \<Rightarrow> v \<noteq> VNil)"

text \<open>\<open>len\<close> counts bytes and \<open>s[:n]\<close> slices bytes; a \<open>string\<close> here is a list of bytes.\<close>

definition GetFieldSnippet :: "'f runtime \<Rightarrow> 'f DynamicMessage \<Rightarrow> string \<Rightarrow> int \<Rightarrow> string" where
  "GetFieldSnippet rt dm fieldName maxLength =
     (case dm fieldName of
        None \<Rightarrow> ''<missing>''
      | Some v \<Rightarrow>
          (let strValue = sprintf_v rt v in
           if maxLength \<le> 0 then ''...''
           else if int (length strValue) > maxLength then take (nat maxLength) strValue @ ''...''
           else strValue))"

subsection \<open>Package config\<close>

record 'f Thresholds =
  NullRate :: "'f option"
  MeanMin :: "'f option"
  MeanMax :: "'f option"
  StdDevMin :: "'f option"
  StdDevMax :: "'f option"

record 'f FeatureConfig =
  Name :: string
  MetricType :: string
  Thresholds :: "'f Thresholds"

subsection \<open>Package pipeline: types of the calculator\<close>

record 'f AggregationResult =
  FeatureName :: string
  WindowStart :: instant
  WindowEnd :: instant
  Count :: int64
  NullCount :: int64
  Mean :: "'f"
  Variance :: "'f"

record 'f FeatureStats =
  count :: int64
  nullCount :: int64
  sum_acc :: "'f"
  sumSq :: "'f"

record 'f windowInfo =
  windowStart :: instant
  windowEnd :: instant
  features :: "string \<rightharpoonup> 'f FeatureStats"

definition newWindowInfo :: "instant \<Rightarrow> instant \<Rightarrow> 'f windowInfo" where
  "newWindowInfo start end' = \<lparr>windowStart = start, windowEnd = end', features = Map.empty\<rparr>"

text \<open>The log lines of the calculator that carry a decision. The two \<open>Debug\<close> lines of
  the flush that only report the size of a map are left out.\<close>

datatype 'f log_event =
    DebugCreatedWindow instant
  | DebugUnsupportedMetric string string
  | WarnNotProcessed string string string instant
  | WarnNegativeVariance string instant "'f" int64 "'f" "'f"
  | DebugSent string instant
  | WarnDropped string instant

text \<open>The calculator: its configuration, the live windows, the buffered \<open>output\<close>
  channel (its buffer and its capacity) and the log. The zero value of \<open>FeatureStats\<close>
  is written \<open>zeroStats\<close>.\<close>

record 'f Calculator =
  WindowSize :: duration
  featuresToRun :: "'f FeatureConfig list"
  windowStates :: "instant \<rightharpoonup> 'f windowInfo"
  output_ch :: "'f AggregationResult list"
  outputCap :: nat
  logs :: "'f log_event list"

definition NewCalculator :: "duration \<Rightarrow> 'f FeatureConfig list \<Rightarrow> nat \<Rightarrow> 'f Calculator" where
  "NewCalculator ws fs cap =
     \<lparr>WindowSize = ws, featuresToRun = fs, windowStates = Map.empty,
      output_ch = [], outputCap = cap, logs = []\<rparr>"

definition zeroStats :: "'f runtime \<Rightarrow> 'f FeatureStats" where
  "zeroStats rt = \<lparr>count = 0, nullCount = 0, sum_acc = f_zero rt, sumSq = f_zero rt\<rparr>"

definition logc :: "'f log_event \<Rightarrow> 'f Calculator \<Rightarrow> 'f Calculator" where
  "logc ev c = c\<lparr>logs := logs c @ [ev]\<rparr>"

subsection \<open>calculator\_metrics.go\<close>

definition processNumericalValue ::
  "'f runtime \<Rightarrow> 'f FeatureStats \<Rightarrow> 'f DynamicMessage \<Rightarrow> string \<Rightarrow> bool \<times> 'f FeatureStats" where
  "processNumericalValue rt stats msg featureName =
     (case GetFloat64 rt msg featureName of
        None \<Rightarrow> (False, stats)
      | Some floatVal \<Rightarrow>
          (True, stats\<lparr>sum_acc := f_add rt (sum_acc stats) floatVal,
                        sumSq := f_add rt (sumSq stats) (f_mul rt floatVal floatVal)\<rparr>))"

text \<open>Returns whether the value was processed, the statistics and the lines logged.\<close>

definition processNonNullValue ::
  "'f runtime \<Rightarrow> 'f FeatureStats \<Rightarrow> 'f DynamicMessage \<Rightarrow> 'f FeatureConfig
     \<Rightarrow> bool \<times> 'f FeatureStats \<times> 'f log_event list" where
  "processNonNullValue rt stats msg featureCfg =
     (if MetricType featureCfg = ''numerical''
      then (let (ok, stats') = processNumericalValue rt stats msg (Name featureCfg)
            in (ok, stats', []))
      else (False, stats, [DebugUnsupportedMetric (Name featureCfg) (MetricType featureCfg)]))"

text \<open>Returns \<open>(mean, variance)\<close> and the lines logged.\<close>

definition calculateMeanVariance ::
  "'f runtime \<Rightarrow> 'f FeatureStats \<Rightarrow> string \<Rightarrow> instant \<Rightarrow> ('f \<times> 'f) \<times> 'f log_event list" where
  "calculateMeanVariance rt stats featureName windowStart' =
     (let validCount = count stats - nullCount stats in
      if sint validCount \<le> 0 then ((f_nan rt, f_nan rt), [])
      else
        (let mean = f_div rt (sum_acc stats) (f_of_int64 rt validCount);
             meanSq = f_mul rt mean mean;
             sumSqAvg = f_div rt (sumSq stats) (f_of_int64 rt validCount);
             variance = f_sub rt sumSqAvg meanSq
         in if f_lt rt variance (f_zero rt) \<and> f_gt rt variance (f_neg_1e9 rt)
            then ((mean, f_zero rt), [])
            else if f_lt rt variance (f_zero rt)
            then ((mean, f_zero rt),
                  [WarnNegativeVariance featureName windowStart' variance validCount
                     (sumSq stats) mean])
            else ((mean, variance), [])))"

subsection \<open>calculator.go\<close>

text \<open>Returns the statistics the pointer refers to and the calculator with the window
  and the entry created where they were absent.\<close>

definition getOrCreateFeatureStats ::
  "'f runtime \<Rightarrow> instant \<Rightarrow> string \<Rightarrow> 'f Calculator \<Rightarrow> 'f FeatureStats \<times> 'f Calculator" where
  "getOrCreateFeatureStats rt windowEnd' featureName c =
     (let (windowState, c1) =
            (case windowStates c windowEnd' of
               None \<Rightarrow>
                 (let windowStart' = windowEnd' - WindowSize c;
                      w = newWindowInfo windowStart' windowEnd'
                  in (w, logc (DebugCreatedWindow windowEnd')
                           (c\<lparr>windowStates := (windowStates c)(windowEnd' \<mapsto> w)\<rparr>)))
             | Some w \<Rightarrow> (w, c))
      in case features windowState featureName of
           None \<Rightarrow>
             (zeroStats rt,
              c1\<lparr>windowStates := (windowStates c1)(windowEnd' \<mapsto>
                    windowState\<lparr>features := (features windowState)(featureName \<mapsto> zeroStats rt)\<rparr>)\<rparr>)
         | Some stats \<Rightarrow> (stats, c1))"

text \<open>A write through the pointer that \<open>getOrCreateFeatureStats\<close> returned.\<close>

definition storeStats :: "instant \<Rightarrow> string \<Rightarrow> 'f FeatureStats \<Rightarrow> 'f Calculator \<Rightarrow> 'f Calculator" where
  "storeStats windowEnd' featureName stats c =
     (case windowStates c windowEnd' of
        None \<Rightarrow> c
      | Some w \<Rightarrow>
          c\<lparr>windowStates := (windowStates c)(windowEnd' \<mapsto>
                w\<lparr>features := (features w)(featureName \<mapsto> stats)\<rparr>)\<rparr>)"

definition updateFeatureStats ::
  "'f runtime \<Rightarrow> 'f DynamicMessage \<Rightarrow> 'f FeatureConfig \<Rightarrow> instant \<Rightarrow> 'f Calculator \<Rightarrow> 'f Calculator" where
  "updateFeatureStats rt msg featureCfg windowEnd' c =
     (let featureName = Name featureCfg;
          (stats, c1) = getOrCreateFeatureStats rt windowEnd' featureName c;
          stats1 = stats\<lparr>count := count stats + 1\<rparr>
      in if \<not> HasNonNull msg featureName
         then storeStats windowEnd' featureName (stats1\<lparr>nullCount := nullCount stats1 + 1\<rparr>) c1
         else
           (let (processed, stats2, lg) = processNonNullValue rt stats1 msg featureCfg;
                c2 = storeStats windowEnd' featureName stats2 (c1\<lparr>logs := logs c1 @ lg\<rparr>)
            in if \<not> processed
               then logc (WarnNotProcessed featureName (MetricType featureCfg)
                            (GetFieldSnippet rt msg featureName 50) windowEnd') c2
               else c2))"

text \<open>\<open>Time.Truncate\<close>: \<open>t\<close> rounded down to a multiple of \<open>d\<close> since the zero time;
  \<open>t\<close> itself when \<open>d <= 0\<close>.\<close>

definition Truncate :: "instant \<Rightarrow> duration \<Rightarrow> instant" where
  "Truncate t d = (if d \<le> 0 then t else t - t mod d)"

text \<open>\<open>now\<close> is the value of \<open>time.Now()\<close> that \<open>processMessage\<close> reads.\<close>

definition processMessage ::
  "'f runtime \<Rightarrow> 'f DynamicMessage \<Rightarrow> instant \<Rightarrow> 'f Calculator \<Rightarrow> 'f Calculator" where
  "processMessage rt msg now c =
     (let windowDuration = WindowSize c;
          windowEnd' = Truncate now windowDuration + windowDuration
      in foldl (\<lambda>c' featureCfg. updateFeatureStats rt msg featureCfg windowEnd' c')
           c (featuresToRun c))"

text \<open>The orders in which the three \<open>range\<close> loops of a flush visit their maps: the live
  windows, the completed windows, and the features of each completed window.\<close>

record range_orders =
  liveOrder :: "instant list"
  completedOrder :: "instant list"
  featureOrder :: "instant \<Rightarrow> string list"

text \<open>The body of the loop of \<open>collectAndRemoveCompletedWindows\<close>, on the pair of
  \<open>windowsToProcess\<close> and \<open>c.windowStates\<close>. A key that is no longer in the map is not
  visited.\<close>

definition collectStep ::
  "instant \<Rightarrow> (instant \<rightharpoonup> 'f windowInfo) \<times> (instant \<rightharpoonup> 'f windowInfo) \<Rightarrow> instant
     \<Rightarrow> (instant \<rightharpoonup> 'f windowInfo) \<times> (instant \<rightharpoonup> 'f windowInfo)" where
  "collectStep cutoffTime acc windowEnd' =
     (case snd acc windowEnd' of
        None \<Rightarrow> acc
      | Some windowState \<Rightarrow>
          if \<not> (windowEnd' > cutoffTime)
          then ((fst acc)(windowEnd' \<mapsto> windowState), (snd acc)(windowEnd' := None))
          else acc)"

definition collectAndRemoveCompletedWindows ::
  "instant list \<Rightarrow> instant \<Rightarrow> 'f Calculator \<Rightarrow> (instant \<rightharpoonup> 'f windowInfo) \<times> 'f Calculator" where
  "collectAndRemoveCompletedWindows order cutoffTime c =
     (let (windowsToProcess, live) =
            foldl (collectStep cutoffTime) (Map.empty, windowStates c) order
      in (windowsToProcess, c\<lparr>windowStates := live\<rparr>))"

text \<open>The \<open>select\<close> with a \<open>default\<close> branch on the buffered \<open>output\<close> channel: the send
  goes through when the buffer has room, and the result is dropped otherwise. The
  alerter takes results from the channel in its own goroutine; what it has taken by the
  time of a send is part of the state of the channel that the send finds, and within
  one flush the model leaves the buffer to the calculator.\<close>

definition trySend :: "'f AggregationResult \<Rightarrow> 'f Calculator \<Rightarrow> 'f Calculator" where
  "trySend result c =
     (if length (output_ch c) < outputCap c
      then logc (DebugSent (FeatureName result) (WindowEnd result))
             (c\<lparr>output_ch := output_ch c @ [result]\<rparr>)
      else logc (WarnDropped (FeatureName result) (WindowEnd result)) c)"

text \<open>The body of the loop of \<open>processAndSendWindowResults\<close>.\<close>

definition sendFeatureResult ::
  "'f runtime \<Rightarrow> instant \<Rightarrow> 'f windowInfo \<Rightarrow> 'f Calculator \<Rightarrow> string \<Rightarrow> 'f Calculator" where
  "sendFeatureResult rt windowEnd' windowState c featureName =
     (case features windowState featureName of
        None \<Rightarrow> c
      | Some stats \<Rightarrow>
          if count stats = 0 then c
          else
            (let ((mean, variance), lg) =
                   calculateMeanVariance rt stats featureName (windowStart windowState);
                 result = \<lparr>FeatureName = featureName, WindowStart = windowStart windowState,
                           WindowEnd = windowEnd', Count = count stats,
                           NullCount = nullCount stats, Mean = mean, Variance = variance\<rparr>
             in trySend result (c\<lparr>logs := logs c @ lg\<rparr>)))"

definition processAndSendWindowResults ::
  "'f runtime \<Rightarrow> string list \<Rightarrow> instant \<Rightarrow> 'f windowInfo \<Rightarrow> 'f Calculator \<Rightarrow> 'f Calculator" where
  "processAndSendWindowResults rt order windowEnd' windowState c =
     foldl (sendFeatureResult rt windowEnd' windowState) c order"

definition flushWindows ::
  "'f runtime \<Rightarrow> range_orders \<Rightarrow> instant \<Rightarrow> 'f Calculator \<Rightarrow> 'f Calculator" where
  "flushWindows rt ord cutoffTime c =
     (let (completedWindows, c1) =
            collectAndRemoveCompletedWindows (liveOrder ord) cutoffTime c
      in if completedWindows = Map.empty then c1
         else foldl (\<lambda>c' windowEnd'.
                       case completedWindows windowEnd' of
                         None \<Rightarrow> c'
                       | Some windowState \<Rightarrow>
                           processAndSendWindowResults rt (featureOrder ord windowEnd')
                             windowEnd' windowState c')
                c1 (completedOrder ord))"

text \<open>The loop of \<open>Calculator.Run\<close> over the outcomes of its \<open>select\<close>: a message with
  the instant \<open>processMessage\<close> reads, a tick of the timer, the input channel closed, or
  the context done with \<open>ctx.Err()\<close>; the flushes with their cut-off instant and the
  orders of their loops.\<close>

datatype error =
    Canceled
  | DeadlineExceeded
  | ErrKafkaFetchFailed
  | ErrConsumerRunFailed
  | ErrCalculatorRunFailed
  | ErrAlerterRunFailed
  | ForeignError string
  | Wrap2 error error

datatype 'f calc_event =
    Msg "'f DynamicMessage" instant
  | Tick instant range_orders
  | InputClosed instant range_orders
  | CtxDone error instant range_orders

datatype run_status = Running | Returned "error option"

fun Calculator_Run ::
  "'f runtime \<Rightarrow> 'f calc_event list \<Rightarrow> 'f Calculator \<Rightarrow> 'f Calculator \<times> run_status" where
  "Calculator_Run rt [] c = (c, Running)"
| "Calculator_Run rt (Msg msg now # evs) c = Calculator_Run rt evs (processMessage rt msg now c)"
| "Calculator_Run rt (Tick tickTime ord # evs) c =
     Calculator_Run rt evs (flushWindows rt ord tickTime c)"
| "Calculator_Run rt (InputClosed now ord # evs) c = (flushWindows rt ord now c, Returned None)"
| "Calculator_Run rt (CtxDone err now ord # evs) c =
     (flushWindows rt ord now c, Returned (Some err))"

subsection \<open>alerter.go\<close>

text \<open>The five Prometheus gauge vectors, each labelled by the feature name, the counter
  vector \<open>featureThresholdViolations\<close> labelled by feature name, check type and
  comparison, and the log of the alerter.\<close>

datatype gauge = featureCount | featureNullCount | featureNullRate | featureMean | featureStdDev

datatype 'f alert_event =
    WarnUnconfigured string instant instant
  | WarnViolation string string instant "'f" "'f" string
  | InfoStats string instant int64 "'f option" "'f option" "'f option"

record 'f observer =
  gauges :: "gauge \<times> string \<rightharpoonup> 'f"
  featureThresholdViolations :: "string \<times> string \<times> string \<Rightarrow> nat"
  alerts :: "'f alert_event list"

definition NewAlerter :: "'f FeatureConfig list \<Rightarrow> (string \<rightharpoonup> 'f FeatureConfig)" where
  "NewAlerter fs = foldl (\<lambda>featureMap f. featureMap(Name f \<mapsto> f)) Map.empty fs"

definition setGauge :: "gauge \<Rightarrow> string \<Rightarrow> 'f \<Rightarrow> 'f observer \<Rightarrow> 'f observer" where
  "setGauge g featureName v ob = ob\<lparr>gauges := (gauges ob)((g, featureName) \<mapsto> v)\<rparr>"

text \<open>The warning of a violation and the increment of the counter that follows it.\<close>

definition reportViolation ::
  "string \<Rightarrow> string \<Rightarrow> string \<Rightarrow> string \<Rightarrow> instant \<Rightarrow> 'f \<Rightarrow> 'f \<Rightarrow> 'f observer \<Rightarrow> 'f observer" where
  "reportViolation title featureName checkType comparison windowEnd' actual threshold ob =
     ob\<lparr>alerts := alerts ob @ [WarnViolation title featureName windowEnd' actual threshold comparison],
        featureThresholdViolations :=
          (featureThresholdViolations ob)((featureName, checkType, comparison) :=
             featureThresholdViolations ob (featureName, checkType, comparison) + 1)\<rparr>"

definition checkNullRate ::
  "'f runtime \<Rightarrow> string \<Rightarrow> instant \<Rightarrow> 'f \<Rightarrow> 'f option \<Rightarrow> 'f observer \<Rightarrow> 'f observer" where
  "checkNullRate rt featureName windowEnd' actualRate threshold ob =
     (if threshold = None \<or> f_isnan rt actualRate then ob
      else if f_gt rt actualRate (the threshold)
      then reportViolation ''Null Rate violation'' featureName ''null_rate'' ''>''
             windowEnd' actualRate (the threshold) ob
      else ob)"

definition checkMean ::
  "'f runtime \<Rightarrow> string \<Rightarrow> instant \<Rightarrow> 'f \<Rightarrow> 'f option \<Rightarrow> 'f option \<Rightarrow> 'f observer \<Rightarrow> 'f observer" where
  "checkMean rt featureName windowEnd' actualMean minThreshold maxThreshold ob =
     (if f_isnan rt actualMean then ob
      else
        (let ob1 = (if minThreshold \<noteq> None \<and> f_lt rt actualMean (the minThreshold)
                    then reportViolation ''Mean violation (Min)'' featureName ''mean'' ''<''
                           windowEnd' actualMean (the minThreshold) ob
                    else ob)
         in if maxThreshold \<noteq> None \<and> f_gt rt actualMean (the maxThreshold)
            then reportViolation ''Mean violation (Max)'' featureName ''mean'' ''>''
                   windowEnd' actualMean (the maxThreshold) ob1
            else ob1))"

definition checkStdDev ::
  "'f runtime \<Rightarrow> string \<Rightarrow> instant \<Rightarrow> 'f \<Rightarrow> 'f option \<Rightarrow> 'f option \<Rightarrow> 'f observer \<Rightarrow> 'f observer" where
  "checkStdDev rt featureName windowEnd' actualStdDev minThreshold maxThreshold ob =
     (if f_isnan rt actualStdDev then ob
      else
        (let ob1 = (if minThreshold \<noteq> None \<and> f_lt rt actualStdDev (the minThreshold)
                    then reportViolation ''StdDev violation (Min)'' featureName ''stddev'' ''<''
                           windowEnd' actualStdDev (the minThreshold) ob
                    else ob)
         in if maxThreshold \<noteq> None \<and> f_gt rt actualStdDev (the maxThreshold)
            then reportViolation ''StdDev violation (Max)'' featureName ''stddev'' ''>''
                   windowEnd' actualStdDev (the maxThreshold) ob1
            else ob1))"

definition logStats ::
  "'f runtime \<Rightarrow> 'f AggregationResult \<Rightarrow> 'f \<Rightarrow> 'f \<Rightarrow> 'f observer \<Rightarrow> 'f observer" where
  "logStats rt result nullRate stdDev ob =
     ob\<lparr>alerts := alerts ob @
        [InfoStats (FeatureName result) (WindowEnd result) (Count result)
           (if \<not> f_isnan rt nullRate then Some nullRate else None)
           (if \<not> f_isnan rt (Mean result) then Some (Mean result) else None)
           (if \<not> f_isnan rt stdDev then Some stdDev else None)]\<rparr>"

text \<open>The two derived metrics, as \<open>processResult\<close> computes them.\<close>

definition nullRateVal :: "'f runtime \<Rightarrow> 'f AggregationResult \<Rightarrow> 'f" where
  "nullRateVal rt result =
     (if 0 < sint (Count result)
      then f_div rt (f_of_int64 rt (NullCount result)) (f_of_int64 rt (Count result))
      else f_nan rt)"

definition stdDevVal :: "'f runtime \<Rightarrow> 'f AggregationResult \<Rightarrow> 'f" where
  "stdDevVal rt result =
     (if \<not> f_isnan rt (Variance result) \<and> f_ge rt (Variance result) (f_zero rt)
      then f_sqrt rt (Variance result)
      else f_nan rt)"

definition processResult ::
  "'f runtime \<Rightarrow> (string \<rightharpoonup> 'f FeatureConfig) \<Rightarrow> 'f AggregationResult \<Rightarrow> 'f observer \<Rightarrow> 'f observer" where
  "processResult rt feats result ob =
     (let featureName = FeatureName result in
      case feats featureName of
        None \<Rightarrow>
          ob\<lparr>alerts := alerts ob @
                [WarnUnconfigured featureName (WindowStart result) (WindowEnd result)]\<rparr>
      | Some featureCfg \<Rightarrow>
          (let nr = nullRateVal rt result;
               sd = stdDevVal rt result;
               ob1 = setGauge featureCount featureName (f_of_int64 rt (Count result)) ob;
               ob2 = setGauge featureNullCount featureName (f_of_int64 rt (NullCount result)) ob1;
               ob3 = (if \<not> f_isnan rt nr then setGauge featureNullRate featureName nr ob2
                      else setGauge featureNullRate featureName (f_zero rt) ob2);
               ob4 = (if \<not> f_isnan rt (Mean result)
                      then setGauge featureMean featureName (Mean result) ob3
                      else setGauge featureMean featureName (f_zero rt) ob3);
               ob5 = (if \<not> f_isnan rt sd then setGauge featureStdDev featureName sd ob4
                      else setGauge featureStdDev featureName (f_zero rt) ob4);
               thresholds = Thresholds featureCfg;
               ob6 = checkNullRate rt featureName (WindowEnd result) nr (NullRate thresholds) ob5;
               ob7 = checkMean rt featureName (WindowEnd result) (Mean result)
                       (MeanMin thresholds) (MeanMax thresholds) ob6;
               ob8 = checkStdDev rt featureName (WindowEnd result) sd
                       (StdDevMin thresholds) (StdDevMax thresholds) ob7
           in logStats rt result nr sd ob8))"

subsection \<open>pipeline.go\<close>

text \<open>\<open>errors.Is\<close> on the errors the pipeline builds: \<open>Wrap2 a b\<close> is
  \<open>fmt.Errorf("%w: %w", a, b)\<close>.\<close>

fun errors_Is :: "error \<Rightarrow> error \<Rightarrow> bool" where
  "errors_Is (Wrap2 a b) target = (Wrap2 a b = target \<or> errors_Is a target \<or> errors_Is b target)"
| "errors_Is e target = (e = target)"

text \<open>What a stage's goroutine sends on the error channel, given what the component's
  \<open>Run\<close> returned (\<open>None\<close> is \<open>nil\<close>). The channel has room for every stage, so a send
  never blocks; the channel is the list of the errors sent, oldest first.\<close>

definition reportStage :: "error \<Rightarrow> error option \<Rightarrow> error list \<Rightarrow> error list" where
  "reportStage sentinel err errCh =
     (if err \<noteq> None \<and> \<not> errors_Is (the err) Canceled
      then errCh @ [Wrap2 sentinel (the err)]
      else errCh)"

definition runConsumer :: "error option \<Rightarrow> error list \<Rightarrow> error list" where
  "runConsumer err errCh = reportStage ErrConsumerRunFailed err errCh"

definition runCalculator :: "error option \<Rightarrow> error list \<Rightarrow> error list" where
  "runCalculator err errCh = reportStage ErrCalculatorRunFailed err errCh"

definition runAlerter :: "error option \<Rightarrow> error list \<Rightarrow> error list" where
  "runAlerter err errCh = reportStage ErrAlerterRunFailed err errCh"

text \<open>The \<open>select\<close> of \<open>Pipeline.Run\<close>. \<open>ctxErr\<close> is \<open>ctx.Err()\<close> once the context is done
  (\<open>None\<close> when it never is), \<open>pipelineErr\<close> the errors sent on the channel; when both
  branches are ready Go picks one, \<open>preferCtx\<close> says which. \<open>None\<close>: neither branch ever
  becomes ready and the \<open>select\<close> blocks for ever.\<close>

definition selectFirstErr :: "error option \<Rightarrow> error list \<Rightarrow> bool \<Rightarrow> error option" where
  "selectFirstErr ctxErr pipelineErr preferCtx =
     (case (ctxErr, pipelineErr) of
        (None, []) \<Rightarrow> None
      | (Some ce, []) \<Rightarrow> Some ce
      | (None, err # _) \<Rightarrow> Some err
      | (Some ce, err # _) \<Rightarrow> Some (if preferCtx then ce else err))"

text \<open>\<open>Pipeline.Run\<close>: \<open>None\<close> when it never returns, \<open>Some None\<close> when it returns \<open>nil\<close>,
  \<open>Some (Some e)\<close> when it returns the error \<open>e\<close>. Either branch of the \<open>select\<close> assigns
  an error that is not \<open>nil\<close>, so of the test \<open>firstErr != nil && !errors.Is(...)\<close> the
  second half decides. The wait for the four goroutines between the \<open>select\<close> and the
  return is not modelled.\<close>

definition Pipeline_Run :: "error option \<Rightarrow> error list \<Rightarrow> bool \<Rightarrow> error option option" where
  "Pipeline_Run ctxErr pipelineErr preferCtx =
     (case selectFirstErr ctxErr pipelineErr preferCtx of
        None \<Rightarrow> None
      | Some firstErr \<Rightarrow>
          Some (if \<not> errors_Is firstErr Canceled then Some firstErr else None))"

subsection \<open>An exact reading of the runtime, for evaluation\<close>

text \<open>Arithmetic on the reals with one not-a-number, without rounding and without
  infinities. It agrees with \<open>float64\<close> on the small integers and halves that the
  evaluations below use, and it is used for nothing else.\<close>

datatype xfloat = XNaN | XVal real

fun xlift2 :: "(real \<Rightarrow> real \<Rightarrow> real) \<Rightarrow> xfloat \<Rightarrow> xfloat \<Rightarrow> xfloat" where
  "xlift2 g (XVal a) (XVal b) = XVal (g a b)"
| "xlift2 g _ _ = XNaN"

fun xdiv :: "xfloat \<Rightarrow> xfloat \<Rightarrow> xfloat" where
  "xdiv (XVal a) (XVal b) = (if b = 0 then XNaN else XVal (a / b))"
| "xdiv _ _ = XNaN"

fun xlt :: "xfloat \<Rightarrow> xfloat \<Rightarrow> bool" where
  "xlt (XVal a) (XVal b) = (a < b)"
| "xlt _ _ = False"

fun xle :: "xfloat \<Rightarrow> xfloat \<Rightarrow> bool" where
  "xle (XVal a) (XVal b) = (a \<le> b)"
| "xle _ _ = False"

fun xsqrt :: "xfloat \<Rightarrow> xfloat" where
  "xsqrt (XVal a) = (if a < 0 then XNaN else XVal (sqrt a))"
| "xsqrt XNaN = XNaN"

fun xrender :: "xfloat val \<Rightarrow> string" where
  "xrender VNil = ''<nil>''"
| "xrender (VString s) = s"
| "xrender (VBool b) = (if b then ''true'' else ''false'')"
| "xrender _ = ''?''"

definition exact_rt :: "xfloat runtime" where
  "exact_rt =
     \<lparr>f_add = xlift2 (+), f_sub = xlift2 (-), f_mul = xlift2 (*), f_div = xdiv,
      f_lt = xlt, f_le = xle, f_nan = XNaN, f_isnan = (\<lambda>x. x = XNaN), f_sqrt = xsqrt,
      f_of_int64 = (\<lambda>w. XVal (real_of_int (sint w))), f_zero = XVal 0,
      f_neg_1e9 = XVal (- (1 / 1000000000)), sprintf_v = xrender\<rparr>"

subsection \<open>Vocabulary of the properties\<close>

text \<open>When a check of the evaluator is due: the bound is configured, the metric is
  computable (not NaN) and the comparison holds.\<close>

definition nullRateViolation :: "'f runtime \<Rightarrow> 'f Thresholds \<Rightarrow> 'f AggregationResult \<Rightarrow> bool" where
  "nullRateViolation rt th result =
     (NullRate th \<noteq> None \<and> \<not> f_isnan rt (nullRateVal rt result) \<and>
      f_gt rt (nullRateVal rt result) (the (NullRate th)))"

definition meanMinViolation :: "'f runtime \<Rightarrow> 'f Thresholds \<Rightarrow> 'f AggregationResult \<Rightarrow> bool" where
  "meanMinViolation rt th result =
     (MeanMin th \<noteq> None \<and> \<not> f_isnan rt (Mean result) \<and> f_lt rt (Mean result) (the (MeanMin th)))"

definition meanMaxViolation :: "'f runtime \<Rightarrow> 'f Thresholds \<Rightarrow> 'f AggregationResult \<Rightarrow> bool" where
  "meanMaxViolation rt th result =
     (MeanMax th \<noteq> None \<and> \<not> f_isnan rt (Mean result) \<and> f_gt rt (Mean result) (the (MeanMax th)))"

definition stdDevMinViolation :: "'f runtime \<Rightarrow> 'f Thresholds \<Rightarrow> 'f AggregationResult \<Rightarrow> bool" where
  "stdDevMinViolation rt th result =
     (StdDevMin th \<noteq> None \<and> \<not> f_isnan rt (stdDevVal rt result) \<and>
      f_lt rt (stdDevVal rt result) (the (StdDevMin th)))"

definition stdDevMaxViolation :: "'f runtime \<Rightarrow> 'f Thresholds \<Rightarrow> 'f AggregationResult \<Rightarrow> bool" where
  "stdDevMaxViolation rt th result =
     (StdDevMax th \<noteq> None \<and> \<not> f_isnan rt (stdDevVal rt result) \<and>
      f_gt rt (stdDevVal rt result) (the (StdDevMax th)))"

definition expectedViolations ::
  "'f runtime \<Rightarrow> 'f Thresholds \<Rightarrow> 'f AggregationResult \<Rightarrow> 'f alert_event list" where
  "expectedViolations rt th result =
     (if nullRateViolation rt th result
      then [WarnViolation ''Null Rate violation'' (FeatureName result) (WindowEnd result)
              (nullRateVal rt result) (the (NullRate th)) ''>''] else []) @
     (if meanMinViolation rt th result
      then [WarnViolation ''Mean violation (Min)'' (FeatureName result) (WindowEnd result)
              (Mean result) (the (MeanMin th)) ''<''] else []) @
     (if meanMaxViolation rt th result
      then [WarnViolation ''Mean violation (Max)'' (FeatureName result) (WindowEnd result)
              (Mean result) (the (MeanMax th)) ''>''] else []) @
     (if stdDevMinViolation rt th result
      then [WarnViolation ''StdDev violation (Min)'' (FeatureName result) (WindowEnd result)
              (stdDevVal rt result) (the (StdDevMin th)) ''<''] else []) @
     (if stdDevMaxViolation rt th result
      then [WarnViolation ''StdDev violation (Max)'' (FeatureName result) (WindowEnd result)
              (stdDevVal rt result) (the (StdDevMax th)) ''>''] else [])"

definition expectedCounter ::
  "'f runtime \<Rightarrow> 'f Thresholds \<Rightarrow> 'f AggregationResult \<Rightarrow> string \<times> string \<times> string \<Rightarrow> nat" where
  "expectedCounter rt th result k =
     (if k = (FeatureName result, ''null_rate'', ''>'') \<and> nullRateViolation rt th result then 1 else 0) +
     (if k = (FeatureName result, ''mean'', ''<'') \<and> meanMinViolation rt th result then 1 else 0) +
     (if k = (FeatureName result, ''mean'', ''>'') \<and> meanMaxViolation rt th result then 1 else 0) +
     (if k = (FeatureName result, ''stddev'', ''<'') \<and> stdDevMinViolation rt th result then 1 else 0) +
     (if k = (FeatureName result, ''stddev'', ''>'') \<and> stdDevMaxViolation rt th result then 1 else 0)"

text \<open>The accumulator stored for a window and a feature (the zero value when there is
  none), the window stored for an end instant (a new one when there is none), and what
  one call of \<open>updateFeatureStats\<close> does to the accumulator it gets.\<close>

definition statsAt :: "'f runtime \<Rightarrow> 'f Calculator \<Rightarrow> instant \<Rightarrow> string \<Rightarrow> 'f FeatureStats" where
  "statsAt rt c e f =
     (case windowStates c e of
        None \<Rightarrow> zeroStats rt
      | Some w \<Rightarrow> (case features w f of None \<Rightarrow> zeroStats rt | Some st \<Rightarrow> st))"

definition windowAt :: "'f Calculator \<Rightarrow> instant \<Rightarrow> 'f windowInfo" where
  "windowAt c e =
     (case windowStates c e of None \<Rightarrow> newWindowInfo (e - WindowSize c) e | Some w \<Rightarrow> w)"

definition ingestStats ::
  "'f runtime \<Rightarrow> 'f DynamicMessage \<Rightarrow> 'f FeatureConfig \<Rightarrow> 'f FeatureStats \<Rightarrow> 'f FeatureStats" where
  "ingestStats rt msg cfg st =
     (if \<not> HasNonNull msg (Name cfg)
      then st\<lparr>count := count st + 1, nullCount := nullCount st + 1\<rparr>
      else if MetricType cfg = ''numerical''
      then (case GetFloat64 rt msg (Name cfg) of
              None \<Rightarrow> st\<lparr>count := count st + 1\<rparr>
            | Some v \<Rightarrow> st\<lparr>count := count st + 1, sum_acc := f_add rt (sum_acc st) v,
                           sumSq := f_add rt (sumSq st) (f_mul rt v v)\<rparr>)
      else st\<lparr>count := count st + 1\<rparr>)"

text \<open>A sequence of calls of \<open>updateFeatureStats\<close> for one window and one feature.\<close>

definition ingestAll ::
  "'f runtime \<Rightarrow> 'f FeatureConfig \<Rightarrow> instant \<Rightarrow> 'f DynamicMessage list \<Rightarrow> 'f Calculator \<Rightarrow> 'f Calculator" where
  "ingestAll rt cfg e msgs c = foldl (\<lambda>c' msg. updateFeatureStats rt msg cfg e c') c msgs"

text \<open>The messages in which the field is null or absent; the messages in which it is
  null, absent or not convertible to a number (the claim's reading of \<open>nullCount\<close>); the
  numbers converted from the messages, in their order.\<close>

definition nullOrAbsent :: "string \<Rightarrow> 'f DynamicMessage list \<Rightarrow> nat" where
  "nullOrAbsent name msgs = length (filter (\<lambda>msg. \<not> HasNonNull msg name) msgs)"

definition noNumericValue :: "'f runtime \<Rightarrow> string \<Rightarrow> 'f DynamicMessage list \<Rightarrow> nat" where
  "noNumericValue rt name msgs = length (filter (\<lambda>msg. GetFloat64 rt msg name = None) msgs)"

definition convertedValues :: "'f runtime \<Rightarrow> 'f FeatureConfig \<Rightarrow> 'f DynamicMessage list \<Rightarrow> 'f list" where
  "convertedValues rt cfg msgs =
     (if MetricType cfg = ''numerical''
      then List.map_filter (\<lambda>msg. GetFloat64 rt msg (Name cfg)) msgs
      else [])"

text \<open>The warnings about a value that was not processed that a log holds; a message
  whose field is present and not null and is not processed (the metric type is not
  \<open>numerical\<close>, or the value is not convertible); the warnings that a sequence of
  messages gives rise to.\<close>

fun warnOf :: "'f log_event \<Rightarrow> 'f log_event list" where
  "warnOf (WarnNotProcessed f m s e) = [WarnNotProcessed f m s e]"
| "warnOf _ = []"

definition notProcessedWarnings :: "'f log_event list \<Rightarrow> 'f log_event list" where
  "notProcessedWarnings lg = concat (map warnOf lg)"

definition unprocessed :: "'f runtime \<Rightarrow> 'f FeatureConfig \<Rightarrow> 'f DynamicMessage \<Rightarrow> bool" where
  "unprocessed rt cfg msg =
     (HasNonNull msg (Name cfg) \<and>
      (MetricType cfg \<noteq> ''numerical'' \<or> GetFloat64 rt msg (Name cfg) = None))"

definition expectedWarnings ::
  "'f runtime \<Rightarrow> 'f FeatureConfig \<Rightarrow> instant \<Rightarrow> 'f DynamicMessage list \<Rightarrow> 'f log_event list" where
  "expectedWarnings rt cfg e msgs =
     map (\<lambda>msg. WarnNotProcessed (Name cfg) (MetricType cfg)
                  (GetFieldSnippet rt msg (Name cfg) 50) e)
       (filter (unprocessed rt cfg) msgs)"

text \<open>A component finishes cleanly when its \<open>Run\<close> returns \<open>nil\<close> or a cancellation: its
  stage then logs a normal or a graceful end.\<close>

definition finishesCleanly :: "error option \<Rightarrow> bool" where
  "finishesCleanly err = (err = None \<or> errors_Is (the err) Canceled)"

text \<open>The attempts to send a result that a log records, sent or dropped, and those that
  were dropped, each by feature name and window end.\<close>

fun attemptOf :: "'f log_event \<Rightarrow> (string \<times> instant) list" where
  "attemptOf (DebugSent f e) = [(f, e)]"
| "attemptOf (WarnDropped f e) = [(f, e)]"
| "attemptOf _ = []"

definition attempts :: "'f log_event list \<Rightarrow> (string \<times> instant) list" where
  "attempts lg = concat (map attemptOf lg)"

fun dropOf :: "'f log_event \<Rightarrow> (string \<times> instant) list" where
  "dropOf (WarnDropped f e) = [(f, e)]"
| "dropOf _ = []"

definition drops :: "'f log_event list \<Rightarrow> (string \<times> instant) list" where
  "drops lg = concat (map dropOf lg)"

definition resultKey :: "'f AggregationResult \<Rightarrow> string \<times> instant" where
  "resultKey r = (FeatureName r, WindowEnd r)"

text \<open>Whether a window holds a feature that the flush sends a result for, the result it
  builds, the results of one window and of a whole flush in the order of the loops, and
  the room left in the buffer of the output channel.\<close>

definition emits :: "'f windowInfo \<Rightarrow> string \<Rightarrow> bool" where
  "emits w f = (case features w f of None \<Rightarrow> False | Some st \<Rightarrow> count st \<noteq> 0)"

definition resultOf :: "'f runtime \<Rightarrow> instant \<Rightarrow> 'f windowInfo \<Rightarrow> string \<Rightarrow> 'f AggregationResult" where
  "resultOf rt e w f =
     (let st = the (features w f);
          mv = fst (calculateMeanVariance rt st f (windowStart w))
      in \<lparr>FeatureName = f, WindowStart = windowStart w, WindowEnd = e, Count = count st,
          NullCount = nullCount st, Mean = fst mv, Variance = snd mv\<rparr>)"

definition windowResults ::
  "'f runtime \<Rightarrow> string list \<Rightarrow> instant \<Rightarrow> 'f windowInfo \<Rightarrow> 'f AggregationResult list" where
  "windowResults rt order e w = map (resultOf rt e w) (filter (emits w) order)"

definition completedOf :: "'f Calculator \<Rightarrow> instant list \<Rightarrow> instant \<Rightarrow> (instant \<rightharpoonup> 'f windowInfo)" where
  "completedOf c order cutoffTime =
     (\<lambda>e. if e \<in> set order \<and> e \<le> cutoffTime then windowStates c e else None)"

definition flushResults ::
  "'f runtime \<Rightarrow> range_orders \<Rightarrow> instant \<Rightarrow> 'f Calculator \<Rightarrow> 'f AggregationResult list" where
  "flushResults rt ord cutoffTime c =
     concat (map (\<lambda>e. case completedOf c (liveOrder ord) cutoffTime e of
                        None \<Rightarrow> []
                      | Some w \<Rightarrow> windowResults rt (featureOrder ord e) e w)
                 (completedOrder ord))"

definition room :: "'f Calculator \<Rightarrow> nat" where
  "room c = outputCap c - length (output_ch c)"

text \<open>The orders of a flush enumerate the maps that its loops range over: each key
  once.\<close>

definition validOrders :: "range_orders \<Rightarrow> 'f Calculator \<Rightarrow> instant \<Rightarrow> bool" where
  "validOrders ord c cutoffTime =
     (distinct (liveOrder ord) \<and> set (liveOrder ord) = dom (windowStates c) \<and>
      distinct (completedOrder ord) \<and>
      set (completedOrder ord) = {e \<in> dom (windowStates c). e \<le> cutoffTime} \<and>
      (\<forall>e w. windowStates c e = Some w \<and> e \<le> cutoffTime \<longrightarrow>
         distinct (featureOrder ord e) \<and> set (featureOrder ord e) = dom (features w)))"

text \<open>The instants at which the messages of a run are processed; the bound that a run
  keeps on the counters of every stored accumulator.\<close>

fun msgInstants :: "'f calc_event list \<Rightarrow> instant list" where
  "msgInstants [] = []"
| "msgInstants (Msg msg now # evs) = now # msgInstants evs"
| "msgInstants (ev # evs) = msgInstants evs"

definition countsOk :: "nat \<Rightarrow> 'f Calculator \<Rightarrow> bool" where
  "countsOk n c =
     (\<forall>e w f st. windowStates c e = Some w \<and> features w f = Some st \<longrightarrow>
        unat (nullCount st) \<le> unat (count st) \<and> 0 < unat (count st) \<and> unat (count st) \<le> n)"

text \<open>Inputs for evaluation.\<close>

definition demoThresholds :: "xfloat Thresholds" where
  "demoThresholds =
     \<lparr>NullRate = Some (XVal (1 / 8)), MeanMin = Some (XVal 12), MeanMax = Some (XVal 8),
      StdDevMin = None, StdDevMax = Some (XVal 1)\<rparr>"

definition demoFeature :: "xfloat FeatureConfig" where
  "demoFeature = \<lparr>Name = ''x'', MetricType = ''numerical'', Thresholds = demoThresholds\<rparr>"

definition demoResult :: "xfloat AggregationResult" where
  "demoResult =
     \<lparr>FeatureName = ''x'', WindowStart = 0, WindowEnd = 60, Count = 20, NullCount = 5,
      Mean = XVal 10, Variance = XVal 4\<rparr>"

definition emptyResult :: "xfloat AggregationResult" where
  "emptyResult =
     \<lparr>FeatureName = ''x'', WindowStart = 0, WindowEnd = 60, Count = 0, NullCount = 0,
      Mean = XNaN, Variance = XNaN\<rparr>"

definition newObserver :: "xfloat observer" where
  "newObserver = \<lparr>gauges = Map.empty, featureThresholdViolations = (\<lambda>k. 0), alerts = []\<rparr>"

definition demoCalculator :: "xfloat Calculator" where
  "demoCalculator = NewCalculator 60 [demoFeature] 2"

definition demoWindow :: "xfloat windowInfo" where
  "demoWindow =
     \<lparr>windowStart = 0, windowEnd = 60,
      features = [''x'' \<mapsto> \<lparr>count = 2, nullCount = 0, sum_acc = XVal 20, sumSq = XVal 202\<rparr>,
                  ''y'' \<mapsto> \<lparr>count = 1, nullCount = 1, sum_acc = XVal 0, sumSq = XVal 0\<rparr>]\<rparr>"

definition demoNextWindow :: "xfloat windowInfo" where
  "demoNextWindow =
     \<lparr>windowStart = 60, windowEnd = 120,
      features = [''x'' \<mapsto> \<lparr>count = 1, nullCount = 0, sum_acc = XVal 7, sumSq = XVal 49\<rparr>]\<rparr>"

definition demoLive :: "xfloat Calculator" where
  "demoLive =
     \<lparr>WindowSize = 60, featuresToRun = [demoFeature],
      windowStates = [60 \<mapsto> demoWindow, 120 \<mapsto> demoNextWindow],
      output_ch = [], outputCap = 1, logs = []\<rparr>"

definition demoOrders :: range_orders where
  "demoOrders =
     \<lparr>liveOrder = [120, 60], completedOrder = [60],
      featureOrder = (\<lambda>e. if e = 60 then [''x'', ''y''] else [''x''])\<rparr>"

definition demoResultX :: "xfloat AggregationResult" where
  "demoResultX =
     \<lparr>FeatureName = ''x'', WindowStart = 0, WindowEnd = 60, Count = 2, NullCount = 0,
      Mean = XVal 10, Variance = XVal 1\<rparr>"

definition demoResultY :: "xfloat AggregationResult" where
  "demoResultY =
     \<lparr>FeatureName = ''y'', WindowStart = 0, WindowEnd = 60, Count = 1, NullCount = 1,
      Mean = XNaN, Variance = XNaN\<rparr>"

definition demoMsgs :: "xfloat calc_event list" where
  "demoMsgs = [Msg [''x'' \<mapsto> VFloat64 (XVal 9)] 70, Msg [''x'' \<mapsto> VNil] 80]"

definition demoEvents :: "xfloat calc_event list" where
  "demoEvents =
     demoMsgs @
     [Tick 120 \<lparr>liveOrder = [120], completedOrder = [120], featureOrder = (\<lambda>e. [''x''])\<rparr>]"

definition demoAccum :: "xfloat FeatureStats" where
  "demoAccum = \<lparr>count = 2, nullCount = 1, sum_acc = XVal 9, sumSq = XVal 81\<rparr>"

definition demoAccumWindow :: "xfloat windowInfo" where
  "demoAccumWindow = \<lparr>windowStart = 60, windowEnd = 120, features = [''x'' \<mapsto> demoAccum]\<rparr>"

text \<open>A run in which the wall clock steps back after a tick: the instants of the
  messages do not decrease, and the second message is processed at an instant before
  the cut-off of the flush that precedes it.\<close>

definition clockBackOrders :: range_orders where
  "clockBackOrders = \<lparr>liveOrder = [60], completedOrder = [60], featureOrder = (\<lambda>e. [''x''])\<rparr>"

definition clockBackRun :: "xfloat calc_event list" where
  "clockBackRun =
     [Msg [''x'' \<mapsto> VFloat64 (XVal 9)] 50, Tick 65 clockBackOrders,
      Msg [''x'' \<mapsto> VFloat64 (XVal 9)] 55, Tick 70 clockBackOrders]"

section \<open>Properties\<close>

subsection \<open>Record model\<close>

text \<open>
  C9. For every record, field name and \<open>maxLength\<close>, \<open>GetFieldSnippet\<close> returns the
  sentinel \<open><missing>\<close> when the field is absent; otherwise the placeholder \<open>...\<close> when
  \<open>maxLength <= 0\<close>; otherwise, when the rendering of the value is longer than
  \<open>maxLength\<close>, its first \<open>maxLength\<close> bytes followed by \<open>...\<close>; otherwise the whole
  rendering.
\<close>

theorem GetFieldSnippet_spec:
  "(dm fieldName = None \<longrightarrow> GetFieldSnippet rt dm fieldName maxLength = ''<missing>'') \<and>
   (dm fieldName = Some v \<and> maxLength \<le> 0 \<longrightarrow>
      GetFieldSnippet rt dm fieldName maxLength = ''...'') \<and>
   (dm fieldName = Some v \<and> 0 < maxLength \<and> maxLength < int (length (sprintf_v rt v)) \<longrightarrow>
      GetFieldSnippet rt dm fieldName maxLength = take (nat maxLength) (sprintf_v rt v) @ ''...'' \<and>
      int (length (GetFieldSnippet rt dm fieldName maxLength)) = maxLength + 3) \<and>
   (dm fieldName = Some v \<and> 0 < maxLength \<and> int (length (sprintf_v rt v)) \<le> maxLength \<longrightarrow>
      GetFieldSnippet rt dm fieldName maxLength = sprintf_v rt v)"
  by (auto simp: GetFieldSnippet_def Let_def)

theorem GetFieldSnippet_spec_witness:
  "GetFieldSnippet exact_rt [''a'' \<mapsto> VString ''hello world''] ''b'' 5 = ''<missing>'' \<and>
   GetFieldSnippet exact_rt [''a'' \<mapsto> VString ''hello world''] ''a'' 0 = ''...'' \<and>
   GetFieldSnippet exact_rt [''a'' \<mapsto> VString ''hello world''] ''a'' 5 = ''hello...'' \<and>
   GetFieldSnippet exact_rt [''a'' \<mapsto> VNil] ''a'' 5 = ''<nil>''"
  using GetFieldSnippet_spec [where dm = "[''a'' \<mapsto> VString ''hello world'']" and fieldName = "''b''"
                                and rt = exact_rt and maxLength = 5]
        GetFieldSnippet_spec [where dm = "[''a'' \<mapsto> VString ''hello world'']" and fieldName = "''a''"
                                and v = "VString ''hello world''" and rt = exact_rt and maxLength = 0]
        GetFieldSnippet_spec [where dm = "[''a'' \<mapsto> VString ''hello world'']" and fieldName = "''a''"
                                and v = "VString ''hello world''" and rt = exact_rt and maxLength = 5]
        GetFieldSnippet_spec [where dm = "[''a'' \<mapsto> VNil]" and fieldName = "''a''"
                                and v = VNil and rt = exact_rt and maxLength = 5]
  by (simp add: exact_rt_def)

subsection \<open>Mean and variance at flush time\<close>

text \<open>
  C2. For every accumulator, with \<open>validCount = count - nullCount\<close>:
  when \<open>validCount <= 0\<close> the mean and the variance are both NaN; otherwise the mean is
  \<open>sum / validCount\<close> and the variance is \<open>sumSq / validCount - mean * mean\<close>, set to \<open>0\<close>
  when it is negative: without a log line when it lies in \<open>(-1e-9, 0)\<close>, with a warning
  otherwise.
\<close>

theorem calculateMeanVariance_spec:
  "let validCount = count stats - nullCount stats;
       mean = f_div rt (sum_acc stats) (f_of_int64 rt validCount);
       v = f_sub rt (f_div rt (sumSq stats) (f_of_int64 rt validCount)) (f_mul rt mean mean);
       r = calculateMeanVariance rt stats featureName ws
   in (sint validCount \<le> 0 \<longrightarrow> r = ((f_nan rt, f_nan rt), [])) \<and>
      (0 < sint validCount \<longrightarrow> fst (fst r) = mean) \<and>
      (0 < sint validCount \<and> f_lt rt v (f_zero rt) \<and> f_gt rt v (f_neg_1e9 rt) \<longrightarrow>
         snd (fst r) = f_zero rt \<and> snd r = []) \<and>
      (0 < sint validCount \<and> f_lt rt v (f_zero rt) \<and> \<not> f_gt rt v (f_neg_1e9 rt) \<longrightarrow>
         snd (fst r) = f_zero rt \<and>
         snd r = [WarnNegativeVariance featureName ws v validCount (sumSq stats) mean]) \<and>
      (0 < sint validCount \<and> \<not> f_lt rt v (f_zero rt) \<longrightarrow> snd (fst r) = v \<and> snd r = [])"
  by (simp add: calculateMeanVariance_def Let_def)

theorem calculateMeanVariance_spec_witness:
  "calculateMeanVariance exact_rt
     \<lparr>count = 2, nullCount = 0, sum_acc = XVal 20, sumSq = XVal 202\<rparr> ''x'' 0
     = ((XVal 10, XVal 1), []) \<and>
   calculateMeanVariance exact_rt
     \<lparr>count = 2, nullCount = 2, sum_acc = XVal 0, sumSq = XVal 0\<rparr> ''x'' 0
     = ((XNaN, XNaN), []) \<and>
   calculateMeanVariance exact_rt
     \<lparr>count = 1, nullCount = 0, sum_acc = XVal 1, sumSq = XVal (1 - 1 / 2 ^ 40)\<rparr> ''x'' 0
     = ((XVal 1, XVal 0), []) \<and>
   calculateMeanVariance exact_rt
     \<lparr>count = 2, nullCount = 0, sum_acc = XVal 20, sumSq = XVal 0\<rparr> ''x'' 0
     = ((XVal 10, XVal 0), [WarnNegativeVariance ''x'' 0 (XVal (- 100)) 2 (XVal 0) (XVal 10)])"
  using calculateMeanVariance_spec [where rt = exact_rt and featureName = "''x''" and ws = 0
          and stats = "\<lparr>count = 2, nullCount = 0, sum_acc = XVal 20, sumSq = XVal 202\<rparr>"]
        calculateMeanVariance_spec [where rt = exact_rt and featureName = "''x''" and ws = 0
          and stats = "\<lparr>count = 2, nullCount = 2, sum_acc = XVal 0, sumSq = XVal 0\<rparr>"]
        calculateMeanVariance_spec [where rt = exact_rt and featureName = "''x''" and ws = 0
          and stats = "\<lparr>count = 1, nullCount = 0, sum_acc = XVal 1, sumSq = XVal (1 - 1 / 2 ^ 40)\<rparr>"]
        calculateMeanVariance_spec [where rt = exact_rt and featureName = "''x''" and ws = 0
          and stats = "\<lparr>count = 2, nullCount = 0, sum_acc = XVal 20, sumSq = XVal 0\<rparr>"]
  by (simp add: exact_rt_def f_gt_def Let_def prod_eq_iff)

subsection \<open>Threshold evaluator\<close>

lemma checkNullRate_effect:
  "alerts (checkNullRate rt f e nr thr ob) = alerts ob @
     (if thr \<noteq> None \<and> \<not> f_isnan rt nr \<and> f_gt rt nr (the thr)
      then [WarnViolation ''Null Rate violation'' f e nr (the thr) ''>''] else [])"
  "featureThresholdViolations (checkNullRate rt f e nr thr ob) k =
     featureThresholdViolations ob k +
     (if k = (f, ''null_rate'', ''>'') \<and> thr \<noteq> None \<and> \<not> f_isnan rt nr \<and> f_gt rt nr (the thr)
      then 1 else 0)"
  "gauges (checkNullRate rt f e nr thr ob) = gauges ob"
  by (simp_all add: checkNullRate_def reportViolation_def)

lemma checkMean_effect:
  "alerts (checkMean rt f e m mmin mmax ob) = alerts ob @
     (if mmin \<noteq> None \<and> \<not> f_isnan rt m \<and> f_lt rt m (the mmin)
      then [WarnViolation ''Mean violation (Min)'' f e m (the mmin) ''<''] else []) @
     (if mmax \<noteq> None \<and> \<not> f_isnan rt m \<and> f_gt rt m (the mmax)
      then [WarnViolation ''Mean violation (Max)'' f e m (the mmax) ''>''] else [])"
  "featureThresholdViolations (checkMean rt f e m mmin mmax ob) k =
     featureThresholdViolations ob k +
     (if k = (f, ''mean'', ''<'') \<and> mmin \<noteq> None \<and> \<not> f_isnan rt m \<and> f_lt rt m (the mmin)
      then 1 else 0) +
     (if k = (f, ''mean'', ''>'') \<and> mmax \<noteq> None \<and> \<not> f_isnan rt m \<and> f_gt rt m (the mmax)
      then 1 else 0)"
  "gauges (checkMean rt f e m mmin mmax ob) = gauges ob"
  by (simp_all add: checkMean_def reportViolation_def Let_def)

lemma checkStdDev_effect:
  "alerts (checkStdDev rt f e m mmin mmax ob) = alerts ob @
     (if mmin \<noteq> None \<and> \<not> f_isnan rt m \<and> f_lt rt m (the mmin)
      then [WarnViolation ''StdDev violation (Min)'' f e m (the mmin) ''<''] else []) @
     (if mmax \<noteq> None \<and> \<not> f_isnan rt m \<and> f_gt rt m (the mmax)
      then [WarnViolation ''StdDev violation (Max)'' f e m (the mmax) ''>''] else [])"
  "featureThresholdViolations (checkStdDev rt f e m mmin mmax ob) k =
     featureThresholdViolations ob k +
     (if k = (f, ''stddev'', ''<'') \<and> mmin \<noteq> None \<and> \<not> f_isnan rt m \<and> f_lt rt m (the mmin)
      then 1 else 0) +
     (if k = (f, ''stddev'', ''>'') \<and> mmax \<noteq> None \<and> \<not> f_isnan rt m \<and> f_gt rt m (the mmax)
      then 1 else 0)"
  "gauges (checkStdDev rt f e m mmin mmax ob) = gauges ob"
  by (simp_all add: checkStdDev_def reportViolation_def Let_def)


lemma setGauge_effect:
  "alerts (setGauge g f v ob) = alerts ob"
  "featureThresholdViolations (setGauge g f v ob) = featureThresholdViolations ob"
  "gauges (setGauge g f v ob) = (gauges ob)((g, f) \<mapsto> v)"
  by (simp_all add: setGauge_def)

lemma logStats_effect:
  "alerts (logStats rt result nr sd ob) = alerts ob @
     [InfoStats (FeatureName result) (WindowEnd result) (Count result)
        (if \<not> f_isnan rt nr then Some nr else None)
        (if \<not> f_isnan rt (Mean result) then Some (Mean result) else None)
        (if \<not> f_isnan rt sd then Some sd else None)]"
  "featureThresholdViolations (logStats rt result nr sd ob) = featureThresholdViolations ob"
  "gauges (logStats rt result nr sd ob) = gauges ob"
  by (simp_all add: logStats_def)

lemma processResult_configured:
  assumes "feats (FeatureName result) = Some cfg"
  shows "processResult rt feats result ob =
     logStats rt result (nullRateVal rt result) (stdDevVal rt result)
      (checkStdDev rt (FeatureName result) (WindowEnd result) (stdDevVal rt result)
         (StdDevMin (Thresholds cfg)) (StdDevMax (Thresholds cfg))
       (checkMean rt (FeatureName result) (WindowEnd result) (Mean result)
          (MeanMin (Thresholds cfg)) (MeanMax (Thresholds cfg))
        (checkNullRate rt (FeatureName result) (WindowEnd result) (nullRateVal rt result)
           (NullRate (Thresholds cfg))
         (setGauge featureStdDev (FeatureName result)
            (if f_isnan rt (stdDevVal rt result) then f_zero rt else stdDevVal rt result)
          (setGauge featureMean (FeatureName result)
             (if f_isnan rt (Mean result) then f_zero rt else Mean result)
           (setGauge featureNullRate (FeatureName result)
              (if f_isnan rt (nullRateVal rt result) then f_zero rt else nullRateVal rt result)
            (setGauge featureNullCount (FeatureName result) (f_of_int64 rt (NullCount result))
             (setGauge featureCount (FeatureName result) (f_of_int64 rt (Count result)) ob))))))))"
  using assms by (simp add: processResult_def Let_def)

text \<open>
  C5. For a result of a configured feature the evaluator reports a violation for a
  metric exactly when the metric is computable, its bound is configured and the
  comparison holds: the counter of each of the five checks grows by one then and not
  otherwise, and the warnings logged are those of the checks that are due; the two
  checks of the mean, and the two of the standard deviation, are decided each on its own.
  The null rate is \<open>NullCount / Count\<close> when \<open>Count > 0\<close> and NaN otherwise; the standard
  deviation is the square root of a variance that is not NaN and not negative, and NaN
  otherwise; where \<open>math.IsNaN (math.NaN ())\<close> holds, the NaN cases are due for no check.
  A result of a feature that is not configured changes no gauge and no counter.
\<close>

theorem processResult_checks:
  "(feats (FeatureName result) = None \<longrightarrow>
      processResult rt feats result ob =
        ob\<lparr>alerts := alerts ob @
              [WarnUnconfigured (FeatureName result) (WindowStart result) (WindowEnd result)]\<rparr>) \<and>
   (feats (FeatureName result) = Some cfg \<longrightarrow>
      (\<forall>k. featureThresholdViolations (processResult rt feats result ob) k =
            featureThresholdViolations ob k + expectedCounter rt (Thresholds cfg) result k) \<and>
      alerts (processResult rt feats result ob) =
        alerts ob @ expectedViolations rt (Thresholds cfg) result @
        [InfoStats (FeatureName result) (WindowEnd result) (Count result)
           (if \<not> f_isnan rt (nullRateVal rt result) then Some (nullRateVal rt result) else None)
           (if \<not> f_isnan rt (Mean result) then Some (Mean result) else None)
           (if \<not> f_isnan rt (stdDevVal rt result) then Some (stdDevVal rt result) else None)]) \<and>
   (0 < sint (Count result) \<longrightarrow>
      nullRateVal rt result =
        f_div rt (f_of_int64 rt (NullCount result)) (f_of_int64 rt (Count result))) \<and>
   (sint (Count result) \<le> 0 \<longrightarrow> nullRateVal rt result = f_nan rt) \<and>
   (\<not> f_isnan rt (Variance result) \<and> f_ge rt (Variance result) (f_zero rt) \<longrightarrow>
      stdDevVal rt result = f_sqrt rt (Variance result)) \<and>
   (f_isnan rt (Variance result) \<or> \<not> f_ge rt (Variance result) (f_zero rt) \<longrightarrow>
      stdDevVal rt result = f_nan rt) \<and>
   (f_isnan rt (f_nan rt) \<and> sint (Count result) \<le> 0 \<longrightarrow> \<not> nullRateViolation rt th result) \<and>
   (f_isnan rt (f_nan rt) \<and> (f_isnan rt (Variance result) \<or> \<not> f_ge rt (Variance result) (f_zero rt)) \<longrightarrow>
      \<not> stdDevMinViolation rt th result \<and> \<not> stdDevMaxViolation rt th result)"
proof -
  have unconf: "feats (FeatureName result) = None \<longrightarrow>
      processResult rt feats result ob =
        ob\<lparr>alerts := alerts ob @
              [WarnUnconfigured (FeatureName result) (WindowStart result) (WindowEnd result)]\<rparr>"
    by (simp add: processResult_def)
  have conf: "feats (FeatureName result) = Some cfg \<longrightarrow>
      (\<forall>k. featureThresholdViolations (processResult rt feats result ob) k =
            featureThresholdViolations ob k + expectedCounter rt (Thresholds cfg) result k) \<and>
      alerts (processResult rt feats result ob) =
        alerts ob @ expectedViolations rt (Thresholds cfg) result @
        [InfoStats (FeatureName result) (WindowEnd result) (Count result)
           (if \<not> f_isnan rt (nullRateVal rt result) then Some (nullRateVal rt result) else None)
           (if \<not> f_isnan rt (Mean result) then Some (Mean result) else None)
           (if \<not> f_isnan rt (stdDevVal rt result) then Some (stdDevVal rt result) else None)]"
  proof
    assume c: "feats (FeatureName result) = Some cfg"
    have cnt: "\<forall>k. featureThresholdViolations (processResult rt feats result ob) k =
            featureThresholdViolations ob k + expectedCounter rt (Thresholds cfg) result k"
      unfolding processResult_configured [where feats = feats and result = result and cfg = cfg, OF c] logStats_effect checkStdDev_effect
        checkMean_effect checkNullRate_effect setGauge_effect expectedCounter_def
        nullRateViolation_def meanMinViolation_def meanMaxViolation_def
        stdDevMinViolation_def stdDevMaxViolation_def
      by (simp only: add.assoc) simp
    have al: "alerts (processResult rt feats result ob) =
        alerts ob @ expectedViolations rt (Thresholds cfg) result @
        [InfoStats (FeatureName result) (WindowEnd result) (Count result)
           (if \<not> f_isnan rt (nullRateVal rt result) then Some (nullRateVal rt result) else None)
           (if \<not> f_isnan rt (Mean result) then Some (Mean result) else None)
           (if \<not> f_isnan rt (stdDevVal rt result) then Some (stdDevVal rt result) else None)]"
      unfolding processResult_configured [where feats = feats and result = result and cfg = cfg, OF c] logStats_effect checkStdDev_effect
        checkMean_effect checkNullRate_effect setGauge_effect expectedViolations_def
        nullRateViolation_def meanMinViolation_def meanMaxViolation_def
        stdDevMinViolation_def stdDevMaxViolation_def
      by (simp only: append_assoc)
    from cnt al show "(\<forall>k. featureThresholdViolations (processResult rt feats result ob) k =
            featureThresholdViolations ob k + expectedCounter rt (Thresholds cfg) result k) \<and>
      alerts (processResult rt feats result ob) =
        alerts ob @ expectedViolations rt (Thresholds cfg) result @
        [InfoStats (FeatureName result) (WindowEnd result) (Count result)
           (if \<not> f_isnan rt (nullRateVal rt result) then Some (nullRateVal rt result) else None)
           (if \<not> f_isnan rt (Mean result) then Some (Mean result) else None)
           (if \<not> f_isnan rt (stdDevVal rt result) then Some (stdDevVal rt result) else None)]"
      by (rule conjI)
  qed
  have nr: "(0 < sint (Count result) \<longrightarrow>
      nullRateVal rt result =
        f_div rt (f_of_int64 rt (NullCount result)) (f_of_int64 rt (Count result))) \<and>
   (sint (Count result) \<le> 0 \<longrightarrow> nullRateVal rt result = f_nan rt)"
    by (simp add: nullRateVal_def)
  have sd: "(\<not> f_isnan rt (Variance result) \<and> f_ge rt (Variance result) (f_zero rt) \<longrightarrow>
      stdDevVal rt result = f_sqrt rt (Variance result)) \<and>
   (f_isnan rt (Variance result) \<or> \<not> f_ge rt (Variance result) (f_zero rt) \<longrightarrow>
      stdDevVal rt result = f_nan rt)"
    by (auto simp: stdDevVal_def)
  have skip: "(f_isnan rt (f_nan rt) \<and> sint (Count result) \<le> 0 \<longrightarrow> \<not> nullRateViolation rt th result) \<and>
   (f_isnan rt (f_nan rt) \<and> (f_isnan rt (Variance result) \<or> \<not> f_ge rt (Variance result) (f_zero rt)) \<longrightarrow>
      \<not> stdDevMinViolation rt th result \<and> \<not> stdDevMaxViolation rt th result)"
    by (auto simp: nullRateViolation_def stdDevMinViolation_def stdDevMaxViolation_def
        nullRateVal_def stdDevVal_def)
  from unconf conf nr sd skip show ?thesis by blast
qed


lemma demo_lookup:
  "NewAlerter [demoFeature] ''x'' = Some demoFeature"
  "NewAlerter [demoFeature] ''y'' = None"
  by (simp_all add: NewAlerter_def demoFeature_def)

lemma demo_metrics:
  "nullRateVal exact_rt demoResult = XVal (1 / 4)"
  "stdDevVal exact_rt demoResult = XVal 2"
  "nullRateVal exact_rt emptyResult = XNaN"
  "stdDevVal exact_rt emptyResult = XNaN"
  by (simp_all add: nullRateVal_def stdDevVal_def exact_rt_def demoResult_def emptyResult_def f_ge_def)

theorem processResult_checks_witness:
  "featureThresholdViolations (processResult exact_rt (NewAlerter [demoFeature]) demoResult newObserver)
     (''x'', ''null_rate'', ''>'') = 1 \<and>
   featureThresholdViolations (processResult exact_rt (NewAlerter [demoFeature]) demoResult newObserver)
     (''x'', ''mean'', ''<'') = 1 \<and>
   featureThresholdViolations (processResult exact_rt (NewAlerter [demoFeature]) demoResult newObserver)
     (''x'', ''mean'', ''>'') = 1 \<and>
   featureThresholdViolations (processResult exact_rt (NewAlerter [demoFeature]) demoResult newObserver)
     (''x'', ''stddev'', ''<'') = 0 \<and>
   featureThresholdViolations (processResult exact_rt (NewAlerter [demoFeature]) demoResult newObserver)
     (''x'', ''stddev'', ''>'') = 1 \<and>
   featureThresholdViolations (processResult exact_rt (NewAlerter [demoFeature]) emptyResult newObserver)
     (''x'', ''null_rate'', ''>'') = 0 \<and>
   processResult exact_rt (NewAlerter [demoFeature]) (demoResult\<lparr>FeatureName := ''y''\<rparr>) newObserver =
     newObserver\<lparr>alerts := [WarnUnconfigured ''y'' 0 60]\<rparr>"
proof -
  have x: "NewAlerter [demoFeature] (FeatureName demoResult) = Some demoFeature"
          "NewAlerter [demoFeature] (FeatureName emptyResult) = Some demoFeature"
          "NewAlerter [demoFeature] (FeatureName (demoResult\<lparr>FeatureName := ''y''\<rparr>)) = None"
    by (simp_all add: demo_lookup demoResult_def emptyResult_def)
  note a = processResult_checks [where feats = "NewAlerter [demoFeature]" and result = demoResult
      and cfg = demoFeature and rt = exact_rt and ob = newObserver and th = demoThresholds]
  note b = processResult_checks [where feats = "NewAlerter [demoFeature]" and result = emptyResult
      and cfg = demoFeature and rt = exact_rt and ob = newObserver and th = demoThresholds]
  note c = processResult_checks [where feats = "NewAlerter [demoFeature]"
      and result = "demoResult\<lparr>FeatureName := ''y''\<rparr>"
      and cfg = demoFeature and rt = exact_rt and ob = newObserver and th = demoThresholds]
  have v: "nullRateViolation exact_rt demoThresholds demoResult"
          "meanMinViolation exact_rt demoThresholds demoResult"
          "meanMaxViolation exact_rt demoThresholds demoResult"
          "\<not> stdDevMinViolation exact_rt demoThresholds demoResult"
          "stdDevMaxViolation exact_rt demoThresholds demoResult"
          "\<not> nullRateViolation exact_rt demoThresholds emptyResult"
    by (simp_all add: nullRateViolation_def meanMinViolation_def meanMaxViolation_def
        stdDevMinViolation_def stdDevMaxViolation_def demo_metrics demoThresholds_def f_gt_def)
      (simp_all add: exact_rt_def demoResult_def)
  show ?thesis
    using a b c x v
    by (simp add: expectedCounter_def demoFeature_def newObserver_def demoResult_def emptyResult_def)
qed

text \<open>
  C10. For a result of a configured feature the evaluator sets all five gauges of the
  feature: count, null count, null rate, mean and standard deviation; a null rate, mean
  or standard deviation that is NaN is written as \<open>0\<close>.
\<close>

theorem processResult_gauges:
  "feats (FeatureName result) = Some cfg \<Longrightarrow>
   gauges (processResult rt feats result ob) (featureCount, FeatureName result) =
     Some (f_of_int64 rt (Count result)) \<and>
   gauges (processResult rt feats result ob) (featureNullCount, FeatureName result) =
     Some (f_of_int64 rt (NullCount result)) \<and>
   gauges (processResult rt feats result ob) (featureNullRate, FeatureName result) =
     Some (if f_isnan rt (nullRateVal rt result) then f_zero rt else nullRateVal rt result) \<and>
   gauges (processResult rt feats result ob) (featureMean, FeatureName result) =
     Some (if f_isnan rt (Mean result) then f_zero rt else Mean result) \<and>
   gauges (processResult rt feats result ob) (featureStdDev, FeatureName result) =
     Some (if f_isnan rt (stdDevVal rt result) then f_zero rt else stdDevVal rt result) \<and>
   (\<forall>g f. f \<noteq> FeatureName result \<longrightarrow>
      gauges (processResult rt feats result ob) (g, f) = gauges ob (g, f))"
  unfolding processResult_configured [where feats = feats and result = result and cfg = cfg]
    logStats_effect checkStdDev_effect checkMean_effect checkNullRate_effect setGauge_effect
  by simp

theorem processResult_gauges_witness:
  "gauges (processResult exact_rt (NewAlerter [demoFeature]) emptyResult newObserver)
     (featureCount, ''x'') = Some (XVal 0) \<and>
   gauges (processResult exact_rt (NewAlerter [demoFeature]) emptyResult newObserver)
     (featureNullCount, ''x'') = Some (XVal 0) \<and>
   gauges (processResult exact_rt (NewAlerter [demoFeature]) emptyResult newObserver)
     (featureNullRate, ''x'') = Some (XVal 0) \<and>
   gauges (processResult exact_rt (NewAlerter [demoFeature]) emptyResult newObserver)
     (featureMean, ''x'') = Some (XVal 0) \<and>
   gauges (processResult exact_rt (NewAlerter [demoFeature]) emptyResult newObserver)
     (featureStdDev, ''x'') = Some (XVal 0) \<and>
   gauges (processResult exact_rt (NewAlerter [demoFeature]) demoResult newObserver)
     (featureNullRate, ''x'') = Some (XVal (1 / 4)) \<and>
   gauges (processResult exact_rt (NewAlerter [demoFeature]) demoResult newObserver)
     (featureMean, ''x'') = Some (XVal 10) \<and>
   gauges (processResult exact_rt (NewAlerter [demoFeature]) demoResult newObserver)
     (featureStdDev, ''x'') = Some (XVal 2)"
proof -
  have x: "NewAlerter [demoFeature] (FeatureName demoResult) = Some demoFeature"
          "NewAlerter [demoFeature] (FeatureName emptyResult) = Some demoFeature"
    by (simp_all add: demo_lookup demoResult_def emptyResult_def)
  have n: "FeatureName demoResult = ''x''" "FeatureName emptyResult = ''x''"
          "Count emptyResult = 0" "NullCount emptyResult = 0"
          "Mean emptyResult = XNaN" "Mean demoResult = XVal 10"
    by (simp_all add: demoResult_def emptyResult_def)
  show ?thesis
    using processResult_gauges [where feats = "NewAlerter [demoFeature]" and result = demoResult
            and cfg = demoFeature and rt = exact_rt and ob = newObserver, OF x(1)]
          processResult_gauges [where feats = "NewAlerter [demoFeature]" and result = emptyResult
            and cfg = demoFeature and rt = exact_rt and ob = newObserver, OF x(2)]
    by (simp add: n demo_metrics) (simp add: exact_rt_def)
qed

subsection \<open>Orchestration\<close>

lemma reportStage_cases:
  "reportStage s None errCh = errCh"
  "errors_Is err Canceled \<Longrightarrow> reportStage s (Some err) errCh = errCh"
  "\<not> errors_Is err Canceled \<Longrightarrow> reportStage s (Some err) errCh = errCh @ [Wrap2 s err]"
  by (simp_all add: reportStage_def)

text \<open>
  C6 (amended). When the shutdown trigger is a cancellation, \<open>Pipeline.Run\<close> returns
  \<open>nil\<close>, not the cancellation indicator, whatever is on the error channel; so it does
  when every component then finishes cleanly, and nothing is on the channel. When the
  trigger is the context ending with another error (its deadline), \<open>Run\<close> returns that
  error of the context as it is. When the trigger is an error received from the error
  channel, \<open>Run\<close> returns that error, the first one sent: it is the sentinel of the stage
  that reported it wrapping the error of the component, and the errors sent after it
  are never read. A stage whose component returns \<open>nil\<close> or a cancellation reports
  nothing.
\<close>

theorem Pipeline_Run_result:
  "(finishesCleanly rCons \<and> finishesCleanly rCalc \<and> finishesCleanly rAlert \<longrightarrow>
      runAlerter rAlert (runCalculator rCalc (runConsumer rCons [])) = [] \<and>
      Pipeline_Run (Some Canceled) (runAlerter rAlert (runCalculator rCalc (runConsumer rCons []))) preferCtx =
        Some None) \<and>
   Pipeline_Run (Some Canceled) [] preferCtx = Some None \<and>
   Pipeline_Run (Some Canceled) pipelineErr True = Some None \<and>
   Pipeline_Run (Some DeadlineExceeded) [] preferCtx = Some (Some DeadlineExceeded) \<and>
   Pipeline_Run (Some DeadlineExceeded) pipelineErr True = Some (Some DeadlineExceeded) \<and>
   (selectFirstErr ctxErr pipelineErr preferCtx = Some firstErr \<and> errors_Is firstErr Canceled \<longrightarrow>
      Pipeline_Run ctxErr pipelineErr preferCtx = Some None) \<and>
   (selectFirstErr ctxErr pipelineErr preferCtx = Some firstErr \<and> \<not> errors_Is firstErr Canceled \<longrightarrow>
      Pipeline_Run ctxErr pipelineErr preferCtx = Some (Some firstErr)) \<and>
   (\<not> errors_Is err Canceled \<longrightarrow>
      Pipeline_Run None (runConsumer (Some err) [] @ rest) preferCtx =
        Some (Some (Wrap2 ErrConsumerRunFailed err)) \<and>
      Pipeline_Run None (runCalculator (Some err) [] @ rest) preferCtx =
        Some (Some (Wrap2 ErrCalculatorRunFailed err)) \<and>
      Pipeline_Run None (runAlerter (Some err) [] @ rest) preferCtx =
        Some (Some (Wrap2 ErrAlerterRunFailed err)) \<and>
      Pipeline_Run (Some ce) (runConsumer (Some err) [] @ rest) False =
        Some (Some (Wrap2 ErrConsumerRunFailed err)) \<and>
      Pipeline_Run (Some ce) (runCalculator (Some err) [] @ rest) False =
        Some (Some (Wrap2 ErrCalculatorRunFailed err)) \<and>
      Pipeline_Run (Some ce) (runAlerter (Some err) [] @ rest) False =
        Some (Some (Wrap2 ErrAlerterRunFailed err))) \<and>
   (errors_Is err Canceled \<longrightarrow>
      runConsumer (Some err) errCh = errCh \<and> runCalculator (Some err) errCh = errCh \<and>
      runAlerter (Some err) errCh = errCh) \<and>
   runConsumer None errCh = errCh \<and> runCalculator None errCh = errCh \<and>
   runAlerter None errCh = errCh"
proof -
  have clean: "reportStage s r errCh' = errCh'" if "finishesCleanly r" for s r errCh'
    using that by (cases r) (auto simp add: finishesCleanly_def reportStage_cases)
  have ctx: "selectFirstErr (Some ce') pipelineErr True = Some ce'" for ce'
    by (cases pipelineErr) (simp_all add: selectFirstErr_def)
  have a: "finishesCleanly rCons \<and> finishesCleanly rCalc \<and> finishesCleanly rAlert \<longrightarrow>
      runAlerter rAlert (runCalculator rCalc (runConsumer rCons [])) = [] \<and>
      Pipeline_Run (Some Canceled) (runAlerter rAlert (runCalculator rCalc (runConsumer rCons []))) preferCtx =
        Some None"
    by (simp add: runConsumer_def runCalculator_def runAlerter_def clean
        Pipeline_Run_def selectFirstErr_def)
  have b: "Pipeline_Run (Some Canceled) pipelineErr True = Some None \<and>
           Pipeline_Run (Some DeadlineExceeded) pipelineErr True = Some (Some DeadlineExceeded)"
    by (simp add: Pipeline_Run_def ctx)
  have c: "Pipeline_Run (Some Canceled) [] preferCtx = Some None \<and>
   Pipeline_Run (Some DeadlineExceeded) [] preferCtx = Some (Some DeadlineExceeded) \<and>
   (selectFirstErr ctxErr pipelineErr preferCtx = Some firstErr \<and> errors_Is firstErr Canceled \<longrightarrow>
      Pipeline_Run ctxErr pipelineErr preferCtx = Some None) \<and>
   (selectFirstErr ctxErr pipelineErr preferCtx = Some firstErr \<and> \<not> errors_Is firstErr Canceled \<longrightarrow>
      Pipeline_Run ctxErr pipelineErr preferCtx = Some (Some firstErr))"
    by (simp add: Pipeline_Run_def selectFirstErr_def)
  have d: "(\<not> errors_Is err Canceled \<longrightarrow>
      Pipeline_Run None (runConsumer (Some err) [] @ rest) preferCtx =
        Some (Some (Wrap2 ErrConsumerRunFailed err)) \<and>
      Pipeline_Run None (runCalculator (Some err) [] @ rest) preferCtx =
        Some (Some (Wrap2 ErrCalculatorRunFailed err)) \<and>
      Pipeline_Run None (runAlerter (Some err) [] @ rest) preferCtx =
        Some (Some (Wrap2 ErrAlerterRunFailed err)) \<and>
      Pipeline_Run (Some ce) (runConsumer (Some err) [] @ rest) False =
        Some (Some (Wrap2 ErrConsumerRunFailed err)) \<and>
      Pipeline_Run (Some ce) (runCalculator (Some err) [] @ rest) False =
        Some (Some (Wrap2 ErrCalculatorRunFailed err)) \<and>
      Pipeline_Run (Some ce) (runAlerter (Some err) [] @ rest) False =
        Some (Some (Wrap2 ErrAlerterRunFailed err))) \<and>
   (errors_Is err Canceled \<longrightarrow>
      runConsumer (Some err) errCh = errCh \<and> runCalculator (Some err) errCh = errCh \<and>
      runAlerter (Some err) errCh = errCh) \<and>
   runConsumer None errCh = errCh \<and> runCalculator None errCh = errCh \<and>
   runAlerter None errCh = errCh"
    by (simp add: Pipeline_Run_def selectFirstErr_def runConsumer_def runCalculator_def
        runAlerter_def reportStage_cases)
  from a b c d show ?thesis by blast
qed

theorem Pipeline_Run_result_witness:
  "Pipeline_Run None
     ([Wrap2 ErrConsumerRunFailed (Wrap2 ErrKafkaFetchFailed (ForeignError ''broker down'')),
       Wrap2 ErrCalculatorRunFailed DeadlineExceeded]) True =
     Some (Some (Wrap2 ErrConsumerRunFailed (Wrap2 ErrKafkaFetchFailed (ForeignError ''broker down'')))) \<and>
   Pipeline_Run (Some Canceled) (runAlerter None (runCalculator (Some Canceled) (runConsumer (Some Canceled) [])))
     False = Some None \<and>
   Pipeline_Run (Some DeadlineExceeded) [] False = Some (Some DeadlineExceeded) \<and>
   runCalculator (Some (Wrap2 ErrKafkaFetchFailed Canceled)) [] = []"
proof -
  note t = Pipeline_Run_result [where ctxErr = None and preferCtx = True
      and pipelineErr = "[Wrap2 ErrConsumerRunFailed (Wrap2 ErrKafkaFetchFailed (ForeignError ''broker down'')),
                          Wrap2 ErrCalculatorRunFailed DeadlineExceeded]"
      and firstErr = "Wrap2 ErrConsumerRunFailed (Wrap2 ErrKafkaFetchFailed (ForeignError ''broker down''))"
      and err = "Wrap2 ErrKafkaFetchFailed Canceled" and errCh = "[]"
      and rCons = "Some Canceled" and rCalc = "Some Canceled" and rAlert = None]
  note u = Pipeline_Run_result [where ctxErr = None and preferCtx = False
      and rCons = "Some Canceled" and rCalc = "Some Canceled" and rAlert = None]
  have f: "finishesCleanly (Some Canceled)" "finishesCleanly None"
    by (simp_all add: finishesCleanly_def)
  have s: "selectFirstErr None
             [Wrap2 ErrConsumerRunFailed (Wrap2 ErrKafkaFetchFailed (ForeignError ''broker down'')),
              Wrap2 ErrCalculatorRunFailed DeadlineExceeded] True =
           Some (Wrap2 ErrConsumerRunFailed (Wrap2 ErrKafkaFetchFailed (ForeignError ''broker down'')))"
    by (simp add: selectFirstErr_def)
  have a: "Pipeline_Run None
     ([Wrap2 ErrConsumerRunFailed (Wrap2 ErrKafkaFetchFailed (ForeignError ''broker down'')),
       Wrap2 ErrCalculatorRunFailed DeadlineExceeded]) True =
     Some (Some (Wrap2 ErrConsumerRunFailed (Wrap2 ErrKafkaFetchFailed (ForeignError ''broker down''))))"
    using t s by simp
  have b: "Pipeline_Run (Some Canceled)
      (runAlerter None (runCalculator (Some Canceled) (runConsumer (Some Canceled) []))) False = Some None"
    using u f by blast
  have c: "Pipeline_Run (Some DeadlineExceeded) [] False = Some (Some DeadlineExceeded)"
    using u by blast
  have d: "runCalculator (Some (Wrap2 ErrKafkaFetchFailed Canceled)) [] = []"
    using t by simp
  from a b c d show ?thesis by blast
qed

text \<open>The claim as stated has \<open>Run\<close> return the cancellation indicator when the trigger
  is a cancellation: it returns \<open>nil\<close>. It has \<open>Run\<close> return no error whenever every
  component finishes cleanly, and otherwise the first error received on the channel,
  wrapped with its stage: on a context that ends by its deadline, with every component
  finishing cleanly and nothing on the channel, \<open>Run\<close> returns the error of the context.\<close>

theorem Pipeline_Run_counterexample:
  "Pipeline_Run (Some Canceled) [] True \<noteq> Some (Some Canceled) \<and>
   finishesCleanly (Some Canceled) \<and> finishesCleanly None \<and>
   runAlerter None (runCalculator None (runConsumer (Some Canceled) [])) = [] \<and>
   Pipeline_Run (Some DeadlineExceeded)
     (runAlerter None (runCalculator None (runConsumer (Some Canceled) []))) True =
     Some (Some DeadlineExceeded)"
  by (simp add: Pipeline_Run_def selectFirstErr_def finishesCleanly_def runConsumer_def
      runCalculator_def runAlerter_def reportStage_def)

subsection \<open>Accumulators\<close>

lemma getOrCreate_fst:
  "fst (getOrCreateFeatureStats rt e f c) = statsAt rt c e f"
  by (simp add: getOrCreateFeatureStats_def statsAt_def newWindowInfo_def Let_def logc_def
      split: option.splits)

lemma getOrCreate_windowStates:
  "windowStates (snd (getOrCreateFeatureStats rt e f c)) =
     (windowStates c)(e \<mapsto> (windowAt c e)\<lparr>features := (features (windowAt c e))(f \<mapsto> statsAt rt c e f)\<rparr>)"
  by (auto simp add: getOrCreateFeatureStats_def statsAt_def windowAt_def newWindowInfo_def Let_def logc_def
      fun_eq_iff map_upd_triv split: option.splits)

lemma getOrCreate_frame:
  "WindowSize (snd (getOrCreateFeatureStats rt e f c)) = WindowSize c"
  "featuresToRun (snd (getOrCreateFeatureStats rt e f c)) = featuresToRun c"
  "output_ch (snd (getOrCreateFeatureStats rt e f c)) = output_ch c"
  "outputCap (snd (getOrCreateFeatureStats rt e f c)) = outputCap c"
  by (simp_all add: getOrCreateFeatureStats_def Let_def logc_def split: option.splits)

lemma storeStats_frame:
  "WindowSize (storeStats e f st c) = WindowSize c"
  "featuresToRun (storeStats e f st c) = featuresToRun c"
  "output_ch (storeStats e f st c) = output_ch c"
  "outputCap (storeStats e f st c) = outputCap c"
  "logs (storeStats e f st c) = logs c"
  by (simp_all add: storeStats_def split: option.splits)

lemma storeStats_windowStates:
  "windowStates c e = Some w \<Longrightarrow>
   windowStates (storeStats e f st c) = (windowStates c)(e \<mapsto> w\<lparr>features := (features w)(f \<mapsto> st)\<rparr>)"
  by (simp add: storeStats_def)

lemma processNonNull_snd:
  "HasNonNull msg (Name cfg) \<Longrightarrow>
   fst (snd (processNonNullValue rt (st\<lparr>count := count st + 1\<rparr>) msg cfg)) = ingestStats rt msg cfg st"
  by (simp add: processNonNullValue_def processNumericalValue_def ingestStats_def split: option.splits)

lemma updateFeatureStats_windowStates:
  "windowStates (updateFeatureStats rt msg cfg e c) =
     (windowStates c)(e \<mapsto> (windowAt c e)\<lparr>features :=
        (features (windowAt c e))(Name cfg \<mapsto> ingestStats rt msg cfg (statsAt rt c e (Name cfg)))\<rparr>)"
proof -
  obtain st c1 where g: "getOrCreateFeatureStats rt e (Name cfg) c = (st, c1)"
    by (cases "getOrCreateFeatureStats rt e (Name cfg) c")
  have st: "st = statsAt rt c e (Name cfg)"
    using getOrCreate_fst [of rt e "Name cfg" c] g by simp
  have ws: "windowStates c1 =
     (windowStates c)(e \<mapsto> (windowAt c e)\<lparr>features := (features (windowAt c e))(Name cfg \<mapsto> st)\<rparr>)"
    using getOrCreate_windowStates [of rt e "Name cfg" c] g st by simp
  show ?thesis
  proof (cases "HasNonNull msg (Name cfg)")
    case False
    then show ?thesis
      using g ws st
      by (simp add: updateFeatureStats_def Let_def storeStats_def ingestStats_def)
  next
    case True
    obtain p st2 lg where q: "processNonNullValue rt (st\<lparr>count := count st + 1\<rparr>) msg cfg = (p, st2, lg)"
      by (cases "processNonNullValue rt (st\<lparr>count := count st + 1\<rparr>) msg cfg")
    have st2: "st2 = ingestStats rt msg cfg st"
      using processNonNull_snd [OF True, of rt st] q by simp
    show ?thesis
      using True g ws st q st2
      by (simp add: updateFeatureStats_def Let_def storeStats_def logc_def)
  qed
qed

lemma updateFeatureStats_frame:
  "WindowSize (updateFeatureStats rt msg cfg e c) = WindowSize c"
  "featuresToRun (updateFeatureStats rt msg cfg e c) = featuresToRun c"
  "output_ch (updateFeatureStats rt msg cfg e c) = output_ch c"
  "outputCap (updateFeatureStats rt msg cfg e c) = outputCap c"
proof -
  obtain st c1 where g: "getOrCreateFeatureStats rt e (Name cfg) c = (st, c1)"
    by (cases "getOrCreateFeatureStats rt e (Name cfg) c")
  have f: "WindowSize c1 = WindowSize c" "featuresToRun c1 = featuresToRun c"
          "output_ch c1 = output_ch c" "outputCap c1 = outputCap c"
    using getOrCreate_frame [of rt e "Name cfg" c] g by simp_all
  show "WindowSize (updateFeatureStats rt msg cfg e c) = WindowSize c"
    using g f by (simp add: updateFeatureStats_def Let_def storeStats_frame logc_def split: prod.splits)
  show "featuresToRun (updateFeatureStats rt msg cfg e c) = featuresToRun c"
    using g f by (simp add: updateFeatureStats_def Let_def storeStats_frame logc_def split: prod.splits)
  show "output_ch (updateFeatureStats rt msg cfg e c) = output_ch c"
    using g f by (simp add: updateFeatureStats_def Let_def storeStats_frame logc_def split: prod.splits)
  show "outputCap (updateFeatureStats rt msg cfg e c) = outputCap c"
    using g f by (simp add: updateFeatureStats_def Let_def storeStats_frame logc_def split: prod.splits)
qed

lemma statsAt_update_same:
  "statsAt rt (updateFeatureStats rt msg cfg e c) e (Name cfg) =
     ingestStats rt msg cfg (statsAt rt c e (Name cfg))"
  by (simp add: statsAt_def [of rt "updateFeatureStats rt msg cfg e c"] updateFeatureStats_windowStates)

lemma statsAt_update_other:
  "(e', f') \<noteq> (e, Name cfg) \<Longrightarrow>
   statsAt rt (updateFeatureStats rt msg cfg e c) e' f' = statsAt rt c e' f'"
  by (auto simp add: statsAt_def updateFeatureStats_windowStates windowAt_def newWindowInfo_def
      split: option.splits)


lemma GetFloat64_HasNonNull: "GetFloat64 rt msg k = Some v \<Longrightarrow> HasNonNull msg k"
  by (auto simp: GetFloat64_def HasNonNull_def split: option.splits val.splits)

lemma statsAt_ingestAll:
  "statsAt rt (ingestAll rt cfg e msgs c) e (Name cfg) =
     foldl (\<lambda>st msg. ingestStats rt msg cfg st) (statsAt rt c e (Name cfg)) msgs"
  unfolding ingestAll_def
  by (induction msgs arbitrary: c) (simp_all add: statsAt_update_same)

lemma ingestStats_fields:
  "count (ingestStats rt m cfg st) = count st + 1"
  "nullCount (ingestStats rt m cfg st) = nullCount st + of_nat (nullOrAbsent (Name cfg) [m])"
  "sum_acc (ingestStats rt m cfg st) = foldl (f_add rt) (sum_acc st) (convertedValues rt cfg [m])"
  "sumSq (ingestStats rt m cfg st) =
     foldl (\<lambda>a v. f_add rt a (f_mul rt v v)) (sumSq st) (convertedValues rt cfg [m])"
  by (auto simp add: ingestStats_def nullOrAbsent_def convertedValues_def map_filter_simps
      dest: GetFloat64_HasNonNull split: option.splits)

lemma nullOrAbsent_Cons:
  "nullOrAbsent name (m # ms) = nullOrAbsent name [m] + nullOrAbsent name ms"
  by (simp add: nullOrAbsent_def)

lemma convertedValues_Cons:
  "convertedValues rt cfg (m # ms) = convertedValues rt cfg [m] @ convertedValues rt cfg ms"
  by (simp add: convertedValues_def map_filter_simps split: option.splits)

lemma ingest_fold_fields:
  "count (foldl (\<lambda>st msg. ingestStats rt msg cfg st) st0 msgs) = count st0 + of_nat (length msgs)"
  "nullCount (foldl (\<lambda>st msg. ingestStats rt msg cfg st) st0 msgs) =
     nullCount st0 + of_nat (nullOrAbsent (Name cfg) msgs)"
  "sum_acc (foldl (\<lambda>st msg. ingestStats rt msg cfg st) st0 msgs) =
     foldl (f_add rt) (sum_acc st0) (convertedValues rt cfg msgs)"
  "sumSq (foldl (\<lambda>st msg. ingestStats rt msg cfg st) st0 msgs) =
     foldl (\<lambda>a v. f_add rt a (f_mul rt v v)) (sumSq st0) (convertedValues rt cfg msgs)"
proof (induction msgs arbitrary: st0)
  case Nil
  { case 1 show ?case by simp }
  { case 2 show ?case by (simp add: nullOrAbsent_def) }
  { case 3 show ?case by (simp add: convertedValues_def map_filter_simps) }
  { case 4 show ?case by (simp add: convertedValues_def map_filter_simps) }
next
  case (Cons m ms)
  { case 1 show ?case by (simp add: Cons.IH(1) ingestStats_fields) }
  { case 2 show ?case
      by (simp add: Cons.IH(2) ingestStats_fields nullOrAbsent_Cons [of _ m ms]) }
  { case 3 show ?case
      by (simp add: Cons.IH(3) ingestStats_fields convertedValues_Cons [of _ _ m ms]) }
  { case 4 show ?case
      by (simp add: Cons.IH(4) ingestStats_fields convertedValues_Cons [of _ _ m ms]) }
qed

lemma notProcessedWarnings_append [simp]:
  "notProcessedWarnings (xs @ ys) = notProcessedWarnings xs @ notProcessedWarnings ys"
  by (simp add: notProcessedWarnings_def)

lemma notProcessedWarnings_simps [simp]:
  "notProcessedWarnings [] = []" "notProcessedWarnings [ev] = warnOf ev"
  by (simp_all add: notProcessedWarnings_def)

lemma getOrCreate_warnings:
  "notProcessedWarnings (logs (snd (getOrCreateFeatureStats rt e f c))) = notProcessedWarnings (logs c)"
  by (simp add: getOrCreateFeatureStats_def Let_def logc_def split: option.splits)

lemma processNonNull_processed:
  "fst (processNonNullValue rt st msg cfg) =
     (MetricType cfg = ''numerical'' \<and> GetFloat64 rt msg (Name cfg) \<noteq> None)"
  "notProcessedWarnings (snd (snd (processNonNullValue rt st msg cfg))) = []"
  by (auto simp add: processNonNullValue_def processNumericalValue_def split: option.splits)

lemma updateFeatureStats_warnings:
  "notProcessedWarnings (logs (updateFeatureStats rt msg cfg e c)) =
     notProcessedWarnings (logs c) @ expectedWarnings rt cfg e [msg]"
proof -
  obtain st c1 where g: "getOrCreateFeatureStats rt e (Name cfg) c = (st, c1)"
    by (cases "getOrCreateFeatureStats rt e (Name cfg) c")
  have l: "notProcessedWarnings (logs c1) = notProcessedWarnings (logs c)"
    using getOrCreate_warnings [of rt e "Name cfg" c] g by simp
  obtain p st2 lg where q: "processNonNullValue rt (st\<lparr>count := count st + 1\<rparr>) msg cfg = (p, st2, lg)"
    by (cases "processNonNullValue rt (st\<lparr>count := count st + 1\<rparr>) msg cfg")
  have p: "p = (MetricType cfg = ''numerical'' \<and> GetFloat64 rt msg (Name cfg) \<noteq> None)"
    and lg: "notProcessedWarnings lg = []"
    using processNonNull_processed [of rt "st\<lparr>count := count st + 1\<rparr>" msg cfg] q by simp_all
  show ?thesis
  proof (cases "HasNonNull msg (Name cfg)")
    case False
    then show ?thesis
      using g l by (simp add: updateFeatureStats_def Let_def storeStats_frame expectedWarnings_def unprocessed_def)
  next
    case True
    then show ?thesis
      using g l q p lg
      by (auto simp add: updateFeatureStats_def Let_def storeStats_frame logc_def
          expectedWarnings_def unprocessed_def)
  qed
qed

lemma expectedWarnings_Cons:
  "expectedWarnings rt cfg e (m # ms) = expectedWarnings rt cfg e [m] @ expectedWarnings rt cfg e ms"
  by (simp add: expectedWarnings_def)

lemma ingestAll_warnings:
  "notProcessedWarnings (logs (ingestAll rt cfg e msgs c)) =
     notProcessedWarnings (logs c) @ expectedWarnings rt cfg e msgs"
  unfolding ingestAll_def
proof (induction msgs arbitrary: c)
  case Nil
  show ?case by (simp add: expectedWarnings_def)
next
  case (Cons m ms)
  show ?case
    by (simp add: Cons.IH updateFeatureStats_warnings expectedWarnings_Cons [of rt cfg e m ms])
qed

lemma demo_statsAt: "statsAt exact_rt demoCalculator 60 ''x'' = zeroStats exact_rt"
  by (simp add: statsAt_def demoCalculator_def NewCalculator_def)

lemma exact_rt_sel:
  "f_add exact_rt = xlift2 (+)" "f_sub exact_rt = xlift2 (-)" "f_mul exact_rt = xlift2 (*)"
  "f_div exact_rt = xdiv" "f_lt exact_rt = xlt" "f_le exact_rt = xle" "f_nan exact_rt = XNaN"
  "f_isnan exact_rt = (\<lambda>x. x = XNaN)" "f_sqrt exact_rt = xsqrt"
  "f_of_int64 exact_rt = (\<lambda>w. XVal (real_of_int (sint w)))" "f_zero exact_rt = XVal 0"
  "f_neg_1e9 exact_rt = XVal (- (1 / 1000000000))" "sprintf_v exact_rt = xrender"
  by (simp_all add: exact_rt_def)

lemma demoFeature_sel:
  "Name demoFeature = ''x''" "MetricType demoFeature = ''numerical''"
  "Thresholds demoFeature = demoThresholds"
  by (simp_all add: demoFeature_def)

text \<open>
  C1 (amended). For every sequence of calls of \<open>updateFeatureStats\<close> on one window and
  one feature, \<open>count\<close> grows by the number of messages, \<open>nullCount\<close> by the number of
  messages in which the field is null or absent, and \<open>sum\<close> and \<open>sumSq\<close> accumulate, in
  the order of the messages, the values converted to a number and their squares, for a
  feature of metric type \<open>numerical\<close>, and nothing otherwise. A value that is present,
  not null and not processed is counted in \<open>count\<close> only, and exactly one warning with
  the snippet of the value is logged for it; no other message is warned about.
  (Counters are \<open>int64\<close> and wrap.)
\<close>

theorem ingest_accumulates:
  "count (statsAt rt (ingestAll rt cfg e msgs c) e (Name cfg)) =
     count (statsAt rt c e (Name cfg)) + of_nat (length msgs) \<and>
   nullCount (statsAt rt (ingestAll rt cfg e msgs c) e (Name cfg)) =
     nullCount (statsAt rt c e (Name cfg)) + of_nat (nullOrAbsent (Name cfg) msgs) \<and>
   sum_acc (statsAt rt (ingestAll rt cfg e msgs c) e (Name cfg)) =
     foldl (f_add rt) (sum_acc (statsAt rt c e (Name cfg))) (convertedValues rt cfg msgs) \<and>
   sumSq (statsAt rt (ingestAll rt cfg e msgs c) e (Name cfg)) =
     foldl (\<lambda>a v. f_add rt a (f_mul rt v v)) (sumSq (statsAt rt c e (Name cfg)))
       (convertedValues rt cfg msgs) \<and>
   notProcessedWarnings (logs (ingestAll rt cfg e msgs c)) =
     notProcessedWarnings (logs c) @ expectedWarnings rt cfg e msgs"
  by (simp add: statsAt_ingestAll ingest_fold_fields ingestAll_warnings)

theorem ingest_accumulates_witness:
  "statsAt exact_rt
     (ingestAll exact_rt demoFeature 60
        [[''x'' \<mapsto> VFloat64 (XVal 9)], [''x'' \<mapsto> VNil], [''y'' \<mapsto> VBool True],
         [''x'' \<mapsto> VString ''abc''], [''x'' \<mapsto> VInt 11]] demoCalculator) 60 ''x'' =
   \<lparr>count = 5, nullCount = 2, sum_acc = XVal 20, sumSq = XVal 202\<rparr> \<and>
   notProcessedWarnings (logs
     (ingestAll exact_rt demoFeature 60
        [[''x'' \<mapsto> VFloat64 (XVal 9)], [''x'' \<mapsto> VNil], [''y'' \<mapsto> VBool True],
         [''x'' \<mapsto> VString ''abc''], [''x'' \<mapsto> VInt 11]] demoCalculator)) =
   [WarnNotProcessed ''x'' ''numerical'' ''abc'' 60]"
proof -
  let ?msgs = "[[''x'' \<mapsto> VFloat64 (XVal 9)], [''x'' \<mapsto> VNil], [''y'' \<mapsto> VBool True],
                [''x'' \<mapsto> VString ''abc''], [''x'' \<mapsto> VInt 11 :: xfloat val]]"
  let ?c = "ingestAll exact_rt demoFeature 60 ?msgs demoCalculator"
  let ?st = "statsAt exact_rt ?c 60 ''x''"
  note t = ingest_accumulates [where rt = exact_rt and cfg = demoFeature and e = 60
        and c = demoCalculator and msgs = ?msgs]
  have a: "nullOrAbsent ''x'' ?msgs = 2"
    by (simp add: nullOrAbsent_def HasNonNull_def)
  have b: "convertedValues exact_rt demoFeature ?msgs = [XVal 9, XVal 11]"
    by (simp add: convertedValues_def demoFeature_sel GetFloat64_def map_filter_simps exact_rt_sel)
  have w: "expectedWarnings exact_rt demoFeature 60 ?msgs = [WarnNotProcessed ''x'' ''numerical'' ''abc'' 60]"
    by (simp add: expectedWarnings_def unprocessed_def demoFeature_sel HasNonNull_def GetFloat64_def
        GetFieldSnippet_def exact_rt_sel)
  have l: "logs demoCalculator = []"
    by (simp add: demoCalculator_def NewCalculator_def)
  have "count ?st = 5 \<and> nullCount ?st = 2 \<and> sum_acc ?st = XVal 20 \<and> sumSq ?st = XVal 202"
    using t by (simp add: demoFeature_sel a b demo_statsAt zeroStats_def exact_rt_sel)
  then have s: "?st = \<lparr>count = 5, nullCount = 2, sum_acc = XVal 20, sumSq = XVal 202\<rparr>"
    by (cases ?st) simp
  have "notProcessedWarnings (logs ?c) = [WarnNotProcessed ''x'' ''numerical'' ''abc'' 60]"
    using t by (simp add: w l)
  with s show ?thesis by simp
qed

text \<open>The claim as stated counts an unconvertible value in \<open>nullCount\<close>; the code does
  not.\<close>

theorem nullCount_unconvertible_counterexample:
  "nullCount (statsAt exact_rt
      (ingestAll exact_rt demoFeature 60 [[''x'' \<mapsto> VString ''abc'']] demoCalculator) 60 ''x'') \<noteq>
   of_nat (noNumericValue exact_rt ''x'' [[''x'' \<mapsto> VString ''abc'']])"
proof -
  have "nullCount (statsAt exact_rt
      (ingestAll exact_rt demoFeature 60 [[''x'' \<mapsto> VString ''abc'']] demoCalculator) 60 ''x'') = 0"
    using statsAt_ingestAll [where rt = exact_rt and cfg = demoFeature and e = 60
        and c = demoCalculator and msgs = "[[''x'' \<mapsto> VString ''abc'']]"]
    by (simp add: demoFeature_sel demo_statsAt zeroStats_def ingestStats_def HasNonNull_def GetFloat64_def)
  moreover have "noNumericValue exact_rt ''x'' [[''x'' \<mapsto> VString ''abc'']] = 1"
    by (simp add: noNumericValue_def GetFloat64_def)
  ultimately show ?thesis by simp
qed

subsection \<open>Flushing\<close>

lemma attempts_append [simp]: "attempts (xs @ ys) = attempts xs @ attempts ys"
  by (simp add: attempts_def)

lemma drops_append [simp]: "drops (xs @ ys) = drops xs @ drops ys"
  by (simp add: drops_def)

lemma attempts_simps [simp]:
  "attempts [] = []" "attempts [ev] = attemptOf ev" "drops [] = []" "drops [ev] = dropOf ev"
  by (simp_all add: attempts_def drops_def)

text \<open>Loops over a list that leave a field alone, append to a trace, or send on the bounded channel.\<close>

lemma foldl_frame:
  assumes "\<And>c x. p (step c x) = p c"
  shows "p (foldl step c xs) = p c"
  by (induction xs arbitrary: c) (simp_all add: assms)

lemma foldl_trace:
  assumes "\<And>c x. tr (step c x) = tr c @ h x"
  shows "tr (foldl step c xs) = tr c @ concat (map h xs)"
  by (induction xs arbitrary: c) (simp_all add: assms)

lemma foldl_bounded:
  assumes cap: "\<And>c x. outputCap (step c x) = outputCap c"
    and out: "\<And>c x. output_ch (step c x) = output_ch c @ take (room c) (g x)"
    and dr: "\<And>c x. drops (logs (step c x)) = drops (logs c) @ map resultKey (drop (room c) (g x))"
  shows "output_ch (foldl step c xs) = output_ch c @ take (room c) (concat (map g xs)) \<and>
         drops (logs (foldl step c xs)) =
           drops (logs c) @ map resultKey (drop (room c) (concat (map g xs)))"
proof (induction xs arbitrary: c)
  case Nil
  show ?case by simp
next
  case (Cons x xs)
  have r: "room (step c x) = room c - length (g x)"
    by (cases "length (g x) \<le> outputCap c - length (output_ch c)")
       (simp_all add: room_def cap out min_def)
  show ?case
    by (simp add: Cons.IH [of "step c x"] out dr r)
qed


text \<open>Sending one result, and the results of one window.\<close>

lemma trySend_frame:
  "windowStates (trySend r c) = windowStates c"
  "WindowSize (trySend r c) = WindowSize c"
  "featuresToRun (trySend r c) = featuresToRun c"
  "outputCap (trySend r c) = outputCap c"
  by (simp_all add: trySend_def logc_def)

lemma trySend_effect:
  "output_ch (trySend r c) = output_ch c @ take (room c) [r]"
  "attempts (logs (trySend r c)) = attempts (logs c) @ [resultKey r]"
  "drops (logs (trySend r c)) = drops (logs c) @ map resultKey (drop (room c) [r])"
  by (auto simp add: trySend_def logc_def room_def resultKey_def)

lemma calculateMeanVariance_logs:
  "attempts (snd (calculateMeanVariance rt st f ws)) = []"
  "drops (snd (calculateMeanVariance rt st f ws)) = []"
  by (simp_all add: calculateMeanVariance_def Let_def)

lemma sendFeatureResult_emits:
  "emits w f \<Longrightarrow>
   sendFeatureResult rt e w c f =
     trySend (resultOf rt e w f)
       (c\<lparr>logs := logs c @ snd (calculateMeanVariance rt (the (features w f)) f (windowStart w))\<rparr>)"
  by (auto simp add: sendFeatureResult_def emits_def resultOf_def Let_def
      split: option.splits prod.splits)

lemma sendFeatureResult_skips: "\<not> emits w f \<Longrightarrow> sendFeatureResult rt e w c f = c"
  by (auto simp add: sendFeatureResult_def emits_def split: option.splits)

lemma sendFeatureResult_frame:
  "windowStates (sendFeatureResult rt e w c f) = windowStates c"
  "WindowSize (sendFeatureResult rt e w c f) = WindowSize c"
  "featuresToRun (sendFeatureResult rt e w c f) = featuresToRun c"
  "outputCap (sendFeatureResult rt e w c f) = outputCap c"
  by (cases "emits w f"; simp add: sendFeatureResult_emits sendFeatureResult_skips trySend_frame)+

lemma sendFeatureResult_effect:
  "output_ch (sendFeatureResult rt e w c f) =
     output_ch c @ take (room c) (if emits w f then [resultOf rt e w f] else [])"
  "attempts (logs (sendFeatureResult rt e w c f)) =
     attempts (logs c) @ map resultKey (if emits w f then [resultOf rt e w f] else [])"
  "drops (logs (sendFeatureResult rt e w c f)) =
     drops (logs c) @ map resultKey (drop (room c) (if emits w f then [resultOf rt e w f] else []))"
  by (cases "emits w f";
      simp add: sendFeatureResult_emits sendFeatureResult_skips trySend_effect
        calculateMeanVariance_logs room_def)+

lemma concat_emits:
  "concat (map (\<lambda>f. if emits w f then [resultOf rt e w f] else []) order) = windowResults rt order e w"
  by (induction order) (simp_all add: windowResults_def)

lemma processAndSend_frame:
  "windowStates (processAndSendWindowResults rt order e w c) = windowStates c"
  "WindowSize (processAndSendWindowResults rt order e w c) = WindowSize c"
  "featuresToRun (processAndSendWindowResults rt order e w c) = featuresToRun c"
  "outputCap (processAndSendWindowResults rt order e w c) = outputCap c"
  unfolding processAndSendWindowResults_def
  by (rule foldl_frame, simp add: sendFeatureResult_frame)+

lemma processAndSend_effect:
  "output_ch (processAndSendWindowResults rt order e w c) =
     output_ch c @ take (room c) (windowResults rt order e w)"
  "drops (logs (processAndSendWindowResults rt order e w c)) =
     drops (logs c) @ map resultKey (drop (room c) (windowResults rt order e w))"
  "attempts (logs (processAndSendWindowResults rt order e w c)) =
     attempts (logs c) @ map resultKey (windowResults rt order e w)"
proof -
  have b: "output_ch (foldl (sendFeatureResult rt e w) c order) =
             output_ch c @ take (room c)
               (concat (map (\<lambda>f. if emits w f then [resultOf rt e w f] else []) order)) \<and>
           drops (logs (foldl (sendFeatureResult rt e w) c order)) =
             drops (logs c) @ map resultKey (drop (room c)
               (concat (map (\<lambda>f. if emits w f then [resultOf rt e w f] else []) order)))"
    by (rule foldl_bounded) (simp_all only: sendFeatureResult_frame sendFeatureResult_effect)
  show "output_ch (processAndSendWindowResults rt order e w c) =
     output_ch c @ take (room c) (windowResults rt order e w)"
    using b by (simp add: processAndSendWindowResults_def concat_emits)
  show "drops (logs (processAndSendWindowResults rt order e w c)) =
     drops (logs c) @ map resultKey (drop (room c) (windowResults rt order e w))"
    using b by (simp add: processAndSendWindowResults_def concat_emits)
  have "attempts (logs (foldl (sendFeatureResult rt e w) c order)) =
          attempts (logs c) @
          concat (map (\<lambda>f. map resultKey (if emits w f then [resultOf rt e w f] else [])) order)"
    by (rule foldl_trace [where tr = "\<lambda>c. attempts (logs c)"]) (simp only: sendFeatureResult_effect)
  moreover have "concat (map (\<lambda>f. map resultKey (if emits w f then [resultOf rt e w f] else [])) order) =
      map resultKey (windowResults rt order e w)"
    by (induction order) (simp_all add: windowResults_def)
  ultimately show "attempts (logs (processAndSendWindowResults rt order e w c)) =
     attempts (logs c) @ map resultKey (windowResults rt order e w)"
    by (simp add: processAndSendWindowResults_def)
qed

text \<open>Collecting the completed windows.\<close>

lemma collectStep_eq:
  "collectStep cutoff (proc, live) k =
     (if live k \<noteq> None \<and> k \<le> cutoff then (proc(k \<mapsto> the (live k)), live(k := None))
      else (proc, live))"
  by (auto simp add: collectStep_def split: option.splits)

lemma collect_fold:
  "foldl (collectStep cutoff) (proc, live) order =
     ((\<lambda>e. if e \<in> set order \<and> e \<le> cutoff \<and> live e \<noteq> None then live e else proc e),
      (\<lambda>e. if e \<in> set order \<and> e \<le> cutoff then None else live e))"
proof (induction order arbitrary: proc live)
  case Nil
  show ?case by simp
next
  case (Cons k ks)
  show ?case
  proof (cases "live k \<noteq> None \<and> k \<le> cutoff")
    case True
    have "foldl (collectStep cutoff) (proc, live) (k # ks) =
          foldl (collectStep cutoff) (proc(k \<mapsto> the (live k)), live(k := None)) ks"
      using True by (simp add: collectStep_eq)
    also have "\<dots> = ((\<lambda>e. if e \<in> set (k # ks) \<and> e \<le> cutoff \<and> live e \<noteq> None then live e else proc e),
      (\<lambda>e. if e \<in> set (k # ks) \<and> e \<le> cutoff then None else live e))"
      using True unfolding Cons.IH by (auto simp add: fun_eq_iff)
    finally show ?thesis .
  next
    case False
    have "foldl (collectStep cutoff) (proc, live) (k # ks) =
          foldl (collectStep cutoff) (proc, live) ks"
      using False by (auto simp add: collectStep_eq)
    also have "\<dots> = ((\<lambda>e. if e \<in> set (k # ks) \<and> e \<le> cutoff \<and> live e \<noteq> None then live e else proc e),
      (\<lambda>e. if e \<in> set (k # ks) \<and> e \<le> cutoff then None else live e))"
      using False unfolding Cons.IH by (auto simp add: fun_eq_iff)
    finally show ?thesis .
  qed
qed

lemma collectAndRemove_eq:
  "collectAndRemoveCompletedWindows order cutoff c =
     (completedOf c order cutoff,
      c\<lparr>windowStates := (\<lambda>e. if e \<in> set order \<and> e \<le> cutoff then None else windowStates c e)\<rparr>)"
  by (auto simp add: collectAndRemoveCompletedWindows_def collect_fold completedOf_def fun_eq_iff)


text \<open>The flush as a whole.\<close>

lemma flushWindows_fold:
  "flushWindows rt ord cutoff c =
     foldl (\<lambda>c' e. case completedOf c (liveOrder ord) cutoff e of
                      None \<Rightarrow> c'
                    | Some w \<Rightarrow> processAndSendWindowResults rt (featureOrder ord e) e w c')
       (c\<lparr>windowStates := (\<lambda>e. if e \<in> set (liveOrder ord) \<and> e \<le> cutoff then None
                                 else windowStates c e)\<rparr>)
       (completedOrder ord)"
proof (cases "completedOf c (liveOrder ord) cutoff = Map.empty")
  case True
  have "foldl (\<lambda>c' e. case Map.empty e of
                      None \<Rightarrow> c'
                    | Some w \<Rightarrow> processAndSendWindowResults rt (featureOrder ord e) e w c') c1 ks = c1"
    for c1 :: "'a Calculator" and ks
    by (induction ks) simp_all
  then show ?thesis
    using True by (simp add: flushWindows_def collectAndRemove_eq)
next
  case False
  then show ?thesis
    by (simp add: flushWindows_def collectAndRemove_eq)
qed

lemma flushStep_frame:
  "windowStates (case m e of None \<Rightarrow> c
                 | Some w \<Rightarrow> processAndSendWindowResults rt (fo e) e w c) = windowStates c"
  "WindowSize (case m e of None \<Rightarrow> c
               | Some w \<Rightarrow> processAndSendWindowResults rt (fo e) e w c) = WindowSize c"
  "featuresToRun (case m e of None \<Rightarrow> c
                  | Some w \<Rightarrow> processAndSendWindowResults rt (fo e) e w c) = featuresToRun c"
  "outputCap (case m e of None \<Rightarrow> c
              | Some w \<Rightarrow> processAndSendWindowResults rt (fo e) e w c) = outputCap c"
  by (cases "m e"; simp add: processAndSend_frame)+

lemma flushStep_effect:
  "output_ch (case m e of None \<Rightarrow> c
              | Some w \<Rightarrow> processAndSendWindowResults rt (fo e) e w c) =
     output_ch c @ take (room c) (case m e of None \<Rightarrow> [] | Some w \<Rightarrow> windowResults rt (fo e) e w)"
  "drops (logs (case m e of None \<Rightarrow> c
                | Some w \<Rightarrow> processAndSendWindowResults rt (fo e) e w c)) =
     drops (logs c) @ map resultKey (drop (room c)
       (case m e of None \<Rightarrow> [] | Some w \<Rightarrow> windowResults rt (fo e) e w))"
  "attempts (logs (case m e of None \<Rightarrow> c
                   | Some w \<Rightarrow> processAndSendWindowResults rt (fo e) e w c)) =
     attempts (logs c) @ map resultKey
       (case m e of None \<Rightarrow> [] | Some w \<Rightarrow> windowResults rt (fo e) e w)"
  by (cases "m e"; simp add: processAndSend_effect)+

lemma flushWindows_frame:
  "WindowSize (flushWindows rt ord cutoff c) = WindowSize c"
  "featuresToRun (flushWindows rt ord cutoff c) = featuresToRun c"
  "outputCap (flushWindows rt ord cutoff c) = outputCap c"
  unfolding flushWindows_fold
  by (subst foldl_frame, simp add: flushStep_frame, simp)+

lemma flushWindows_windowStates:
  "windowStates (flushWindows rt ord cutoff c) =
     (\<lambda>e. if e \<in> set (liveOrder ord) \<and> e \<le> cutoff then None else windowStates c e)"
  unfolding flushWindows_fold
  by (subst foldl_frame, simp add: flushStep_frame, simp)

lemma flushWindows_effect:
  "output_ch (flushWindows rt ord cutoff c) = output_ch c @ take (room c) (flushResults rt ord cutoff c)"
  "drops (logs (flushWindows rt ord cutoff c)) =
     drops (logs c) @ map resultKey (drop (room c) (flushResults rt ord cutoff c))"
  "attempts (logs (flushWindows rt ord cutoff c)) =
     attempts (logs c) @ map resultKey (flushResults rt ord cutoff c)"
proof -
  let ?m = "completedOf c (liveOrder ord) cutoff"
  let ?c1 = "c\<lparr>windowStates := (\<lambda>e. if e \<in> set (liveOrder ord) \<and> e \<le> cutoff then None
                                 else windowStates c e)\<rparr>"
  let ?step = "\<lambda>c' e. case ?m e of None \<Rightarrow> c'
                    | Some w \<Rightarrow> processAndSendWindowResults rt (featureOrder ord e) e w c'"
  let ?g = "\<lambda>e. case ?m e of None \<Rightarrow> [] | Some w \<Rightarrow> windowResults rt (featureOrder ord e) e w"
  have c1: "room ?c1 = room c" "output_ch ?c1 = output_ch c" "logs ?c1 = logs c"
    by (simp_all add: room_def)
  have b: "output_ch (foldl ?step ?c1 (completedOrder ord)) =
             output_ch ?c1 @ take (room ?c1) (concat (map ?g (completedOrder ord))) \<and>
           drops (logs (foldl ?step ?c1 (completedOrder ord))) =
             drops (logs ?c1) @ map resultKey (drop (room ?c1) (concat (map ?g (completedOrder ord))))"
    by (rule foldl_bounded) (simp_all only: flushStep_frame flushStep_effect)
  show "output_ch (flushWindows rt ord cutoff c) = output_ch c @ take (room c) (flushResults rt ord cutoff c)"
    using b unfolding c1 flushWindows_fold flushResults_def by simp
  show "drops (logs (flushWindows rt ord cutoff c)) =
     drops (logs c) @ map resultKey (drop (room c) (flushResults rt ord cutoff c))"
    using b unfolding c1 flushWindows_fold flushResults_def by simp
  have "attempts (logs (foldl ?step ?c1 (completedOrder ord))) =
          attempts (logs ?c1) @ concat (map (\<lambda>e. map resultKey (?g e)) (completedOrder ord))"
    by (rule foldl_trace [where tr = "\<lambda>c. attempts (logs c)"]) (simp only: flushStep_effect)
  then show "attempts (logs (flushWindows rt ord cutoff c)) =
     attempts (logs c) @ map resultKey (flushResults rt ord cutoff c)"
    unfolding c1 flushWindows_fold flushResults_def by (simp add: map_concat comp_def)
qed


text \<open>One result for each pair.\<close>

lemma count_list_filter_distinct:
  "distinct xs \<Longrightarrow> count_list (filter P xs) x = (if x \<in> set xs \<and> P x then 1 else 0)"
  by (induction xs) auto

lemma count_list_concat_one:
  assumes "distinct ks" and "\<And>k. k \<in> set ks \<Longrightarrow> k \<noteq> k0 \<Longrightarrow> count_list (h k) x = 0"
  shows "count_list (concat (map h ks)) x = (if k0 \<in> set ks then count_list (h k0) x else 0)"
  using assms by (induction ks) auto

lemma resultKey_resultOf: "resultKey (resultOf rt e w f) = (f, e)"
  by (simp add: resultKey_def resultOf_def Let_def)

lemma count_windowResults:
  "count_list (map resultKey (windowResults rt order e w)) (f, e') =
     (if e' = e then count_list (filter (emits w) order) f else 0)"
proof -
  have "map resultKey (windowResults rt order e w) = map (\<lambda>f. (f, e)) (filter (emits w) order)"
    by (simp add: windowResults_def resultKey_resultOf)
  moreover have "count_list (map (\<lambda>f. (f, e)) xs) (f, e') = (if e' = e then count_list xs f else 0)"
    for xs :: "string list"
    by (induction xs) auto
  ultimately show ?thesis by simp
qed

lemma flushResults_count:
  assumes v: "validOrders ord c cutoff"
    and w: "windowStates c e = Some w" and st: "features w f = Some st"
  shows "count_list (map resultKey (flushResults rt ord cutoff c)) (f, e) =
           (if e \<le> cutoff \<and> count st \<noteq> 0 then 1 else 0)"
proof -
  let ?h = "\<lambda>k. map resultKey (case completedOf c (liveOrder ord) cutoff k of
                        None \<Rightarrow> []
                      | Some w' \<Rightarrow> windowResults rt (featureOrder ord k) k w')"
  have d: "distinct (completedOrder ord)"
    and s: "set (completedOrder ord) = {e \<in> dom (windowStates c). e \<le> cutoff}"
    and l: "set (liveOrder ord) = dom (windowStates c)"
    using v by (simp_all add: validOrders_def)
  have other: "count_list (?h k) (f, e) = 0" if "k \<noteq> e" for k
    using that by (cases "completedOf c (liveOrder ord) cutoff k") (simp_all add: count_windowResults)
  have eq: "map resultKey (flushResults rt ord cutoff c) = concat (map ?h (completedOrder ord))"
    by (simp add: flushResults_def map_concat comp_def)
  have one: "count_list (concat (map ?h (completedOrder ord))) (f, e) =
          (if e \<in> set (completedOrder ord) then count_list (?h e) (f, e) else 0)"
    by (rule count_list_concat_one [OF d]) (rule other)
  show ?thesis
  proof (cases "e \<le> cutoff")
    case False
    then show ?thesis using eq one s by simp
  next
    case True
    have mem: "e \<in> set (completedOrder ord)" using True w s by auto
    have comp: "completedOf c (liveOrder ord) cutoff e = Some w"
      using True w l by (auto simp add: completedOf_def)
    have fo: "distinct (featureOrder ord e)" "set (featureOrder ord e) = dom (features w)"
      using v w True by (auto simp add: validOrders_def)
    have "count_list (?h e) (f, e) = count_list (filter (emits w) (featureOrder ord e)) f"
      by (simp add: comp count_windowResults)
    also have "\<dots> = (if f \<in> set (featureOrder ord e) \<and> emits w f then 1 else 0)"
      by (rule count_list_filter_distinct [OF fo(1)])
    also have "\<dots> = (if count st \<noteq> 0 then 1 else 0)"
      using st fo(2) by (auto simp add: emits_def)
    finally show ?thesis using eq one mem True by simp
  qed
qed

lemma flushResults_sound:
  assumes "r \<in> set (flushResults rt ord cutoff c)"
  shows "\<exists>w st. windowStates c (WindowEnd r) = Some w \<and> WindowEnd r \<le> cutoff \<and>
           features w (FeatureName r) = Some st \<and> count st \<noteq> 0 \<and>
           r = resultOf rt (WindowEnd r) w (FeatureName r)"
proof -
  from assms obtain e where
    "r \<in> set (case completedOf c (liveOrder ord) cutoff e of
                 None \<Rightarrow> [] | Some w \<Rightarrow> windowResults rt (featureOrder ord e) e w)"
    by (auto simp add: flushResults_def)
  then obtain w where e: "completedOf c (liveOrder ord) cutoff e = Some w"
    and r: "r \<in> set (windowResults rt (featureOrder ord e) e w)"
    by (cases "completedOf c (liveOrder ord) cutoff e") auto
  from r obtain f where f: "emits w f" and rf: "r = resultOf rt e w f"
    by (auto simp add: windowResults_def)
  from f obtain st where st: "features w f = Some st" "count st \<noteq> 0"
    by (auto simp add: emits_def split: option.splits)
  have k: "WindowEnd r = e" "FeatureName r = f"
    using rf by (simp_all add: resultOf_def Let_def)
  have "windowStates c e = Some w \<and> e \<le> cutoff"
    using e by (auto simp add: completedOf_def split: if_splits)
  then show ?thesis using st rf k by auto
qed

text \<open>
  C3. For every state of the live windows and every cut-off instant, whatever the
  order in which the loops visit the maps, \<open>flushWindows\<close> removes from the live state
  exactly the windows whose end is \<open><=\<close> the cut-off and leaves every other window as it
  was; it attempts to send exactly one result for each pair of a removed window and a
  feature of it whose count is not \<open>0\<close>, and none for a pair whose count is \<open>0\<close> or whose
  window stays; each result carries the statistics of its pair; the results are put on
  the output channel as long as its buffer has room.
\<close>

theorem flush_removes_and_emits:
  assumes "validOrders ord c cutoff"
  shows "windowStates (flushWindows rt ord cutoff c) =
           (\<lambda>e. if e \<le> cutoff then None else windowStates c e) \<and>
         attempts (logs (flushWindows rt ord cutoff c)) =
           attempts (logs c) @ map resultKey (flushResults rt ord cutoff c) \<and>
         (\<forall>e w f st. windowStates c e = Some w \<and> features w f = Some st \<longrightarrow>
            count_list (map resultKey (flushResults rt ord cutoff c)) (f, e) =
              (if e \<le> cutoff \<and> count st \<noteq> 0 then 1 else 0)) \<and>
         (\<forall>r \<in> set (flushResults rt ord cutoff c).
            \<exists>w st. windowStates c (WindowEnd r) = Some w \<and> WindowEnd r \<le> cutoff \<and>
              features w (FeatureName r) = Some st \<and> count st \<noteq> 0 \<and>
              r = resultOf rt (WindowEnd r) w (FeatureName r)) \<and>
         output_ch (flushWindows rt ord cutoff c) =
           output_ch c @ take (room c) (flushResults rt ord cutoff c)"
proof -
  have l: "set (liveOrder ord) = dom (windowStates c)"
    using assms by (simp add: validOrders_def)
  have a: "windowStates (flushWindows rt ord cutoff c) =
           (\<lambda>e. if e \<le> cutoff then None else windowStates c e)"
    unfolding flushWindows_windowStates using l by (auto simp add: fun_eq_iff)
  have b: "\<forall>e w f st. windowStates c e = Some w \<and> features w f = Some st \<longrightarrow>
            count_list (map resultKey (flushResults rt ord cutoff c)) (f, e) =
              (if e \<le> cutoff \<and> count st \<noteq> 0 then 1 else 0)"
    using flushResults_count [OF assms] by blast
  have c: "\<forall>r \<in> set (flushResults rt ord cutoff c).
            \<exists>w st. windowStates c (WindowEnd r) = Some w \<and> WindowEnd r \<le> cutoff \<and>
              features w (FeatureName r) = Some st \<and> count st \<noteq> 0 \<and>
              r = resultOf rt (WindowEnd r) w (FeatureName r)"
    using flushResults_sound by blast
  show ?thesis
    using a b c flushWindows_effect(1,3) [of rt ord cutoff c] by blast
qed

lemma demo_validOrders: "validOrders demoOrders demoLive 60"
  by (auto simp add: validOrders_def demoOrders_def demoLive_def demoWindow_def split: if_splits)

lemma demo_flushResults: "flushResults exact_rt demoOrders 60 demoLive = [demoResultX, demoResultY]"
  by (simp add: flushResults_def completedOf_def demoOrders_def demoLive_def windowResults_def
      emits_def demoWindow_def resultOf_def calculateMeanVariance_def Let_def exact_rt_sel
      f_gt_def demoResultX_def demoResultY_def)

theorem flush_removes_and_emits_witness:
  "windowStates (flushWindows exact_rt demoOrders 60 demoLive) 60 = None \<and>
   windowStates (flushWindows exact_rt demoOrders 60 demoLive) 120 = Some demoNextWindow \<and>
   attempts (logs (flushWindows exact_rt demoOrders 60 demoLive)) = [(''x'', 60), (''y'', 60)] \<and>
   count_list (map resultKey (flushResults exact_rt demoOrders 60 demoLive)) (''x'', 60) = 1 \<and>
   count_list (map resultKey (flushResults exact_rt demoOrders 60 demoLive)) (''x'', 120) = 0 \<and>
   output_ch (flushWindows exact_rt demoOrders 60 demoLive) = [demoResultX]"
proof -
  note t = flush_removes_and_emits [OF demo_validOrders, of exact_rt]
  have w: "windowStates demoLive 60 = Some demoWindow" "windowStates demoLive 120 = Some demoNextWindow"
          "features demoWindow ''x'' = Some \<lparr>count = 2, nullCount = 0, sum_acc = XVal 20, sumSq = XVal 202\<rparr>"
          "features demoNextWindow ''x'' = Some \<lparr>count = 1, nullCount = 0, sum_acc = XVal 7, sumSq = XVal 49\<rparr>"
    by (simp_all add: demoLive_def demoWindow_def demoNextWindow_def)
  have k: "resultKey demoResultX = (''x'', 60)" "resultKey demoResultY = (''y'', 60)"
    by (simp_all add: resultKey_def demoResultX_def demoResultY_def)
  have r: "room demoLive = 1" "logs demoLive = []" "output_ch demoLive = []"
    by (simp_all add: room_def demoLive_def)
  from t have a: "windowStates (flushWindows exact_rt demoOrders 60 demoLive) =
           (\<lambda>e. if e \<le> 60 then None else windowStates demoLive e)" by blast
  from t have b: "attempts (logs (flushWindows exact_rt demoOrders 60 demoLive)) =
           attempts (logs demoLive) @ map resultKey (flushResults exact_rt demoOrders 60 demoLive)" by blast
  from t have c: "output_ch (flushWindows exact_rt demoOrders 60 demoLive) =
           output_ch demoLive @ take (room demoLive) (flushResults exact_rt demoOrders 60 demoLive)" by blast
  show ?thesis
    by (simp add: a b c w k r demo_flushResults)
qed

text \<open>
  C7. Sending a result on the output channel does not block: when the buffer is at
  capacity the result is not put on the channel and a warning is logged, and otherwise
  it is appended. A flush attempts to send every result whatever the state of the
  channel (the results do not depend on it): those that the room in the buffer admits
  are appended, the others are dropped with a warning each, and the windows are removed
  from the live state all the same.
\<close>

theorem flush_drops_when_full:
  "(outputCap c \<le> length (output_ch c) \<longrightarrow>
      trySend r c = c\<lparr>logs := logs c @ [WarnDropped (FeatureName r) (WindowEnd r)]\<rparr>) \<and>
   (length (output_ch c) < outputCap c \<longrightarrow>
      trySend r c = c\<lparr>output_ch := output_ch c @ [r],
                       logs := logs c @ [DebugSent (FeatureName r) (WindowEnd r)]\<rparr>) \<and>
   output_ch (flushWindows rt ord cutoff c) =
     output_ch c @ take (room c) (flushResults rt ord cutoff c) \<and>
   drops (logs (flushWindows rt ord cutoff c)) =
     drops (logs c) @ map resultKey (drop (room c) (flushResults rt ord cutoff c)) \<and>
   attempts (logs (flushWindows rt ord cutoff c)) =
     attempts (logs c) @ map resultKey (flushResults rt ord cutoff c) \<and>
   flushResults rt ord cutoff (c\<lparr>output_ch := buf, outputCap := n\<rparr>) = flushResults rt ord cutoff c \<and>
   windowStates (flushWindows rt ord cutoff c) =
     (\<lambda>e. if e \<in> set (liveOrder ord) \<and> e \<le> cutoff then None else windowStates c e) \<and>
   outputCap (flushWindows rt ord cutoff c) = outputCap c"
proof -
  have "flushResults rt ord cutoff (c\<lparr>output_ch := buf, outputCap := n\<rparr>) = flushResults rt ord cutoff c"
    by (simp add: flushResults_def completedOf_def cong: if_cong)
  then show ?thesis
    by (simp add: flushWindows_effect flushWindows_windowStates flushWindows_frame
        trySend_def logc_def)
qed

theorem flush_drops_when_full_witness:
  "output_ch (flushWindows exact_rt demoOrders 60 demoLive) = [demoResultX] \<and>
   drops (logs (flushWindows exact_rt demoOrders 60 demoLive)) = [(''y'', 60)] \<and>
   attempts (logs (flushWindows exact_rt demoOrders 60 demoLive)) = [(''x'', 60), (''y'', 60)] \<and>
   windowStates (flushWindows exact_rt demoOrders 60 demoLive) 60 = None \<and>
   trySend demoResultY (demoLive\<lparr>output_ch := [demoResultX]\<rparr>) =
     demoLive\<lparr>output_ch := [demoResultX], logs := [WarnDropped ''y'' 60]\<rparr>"
proof -
  note t = flush_drops_when_full [where rt = exact_rt and ord = demoOrders and cutoff = 60
        and c = demoLive and r = demoResultY and buf = "[]" and n = 1]
  note u = flush_drops_when_full [where rt = exact_rt and ord = demoOrders and cutoff = 60
        and c = "demoLive\<lparr>output_ch := [demoResultX]\<rparr>" and r = demoResultY and buf = "[]" and n = 1]
  have k: "resultKey demoResultX = (''x'', 60)" "resultKey demoResultY = (''y'', 60)"
    by (simp_all add: resultKey_def demoResultX_def demoResultY_def)
  have r: "room demoLive = 1" "logs demoLive = []" "output_ch demoLive = []" "outputCap demoLive = 1"
          "liveOrder demoOrders = [120, 60]"
    by (simp_all add: room_def demoLive_def demoOrders_def)
  have n: "FeatureName demoResultY = ''y''" "WindowEnd demoResultY = 60"
    by (simp_all add: demoResultY_def)
  from t have a: "output_ch (flushWindows exact_rt demoOrders 60 demoLive) =
     output_ch demoLive @ take (room demoLive) (flushResults exact_rt demoOrders 60 demoLive)" by blast
  from t have b: "drops (logs (flushWindows exact_rt demoOrders 60 demoLive)) =
     drops (logs demoLive) @ map resultKey (drop (room demoLive) (flushResults exact_rt demoOrders 60 demoLive))"
    by blast
  from t have c: "attempts (logs (flushWindows exact_rt demoOrders 60 demoLive)) =
     attempts (logs demoLive) @ map resultKey (flushResults exact_rt demoOrders 60 demoLive)" by blast
  from t have d: "windowStates (flushWindows exact_rt demoOrders 60 demoLive) =
     (\<lambda>e. if e \<in> set (liveOrder demoOrders) \<and> e \<le> 60 then None else windowStates demoLive e)" by blast
  from u have e: "outputCap (demoLive\<lparr>output_ch := [demoResultX]\<rparr>)
        \<le> length (output_ch (demoLive\<lparr>output_ch := [demoResultX]\<rparr>)) \<longrightarrow>
      trySend demoResultY (demoLive\<lparr>output_ch := [demoResultX]\<rparr>) =
        (demoLive\<lparr>output_ch := [demoResultX]\<rparr>)
          \<lparr>logs := logs (demoLive\<lparr>output_ch := [demoResultX]\<rparr>) @
             [WarnDropped (FeatureName demoResultY) (WindowEnd demoResultY)]\<rparr>" by blast
  show ?thesis
    using e by (simp add: a b c d demo_flushResults k r n)
qed

subsection \<open>Runs of the calculator\<close>

lemma getOrCreate_logs:
  "attempts (logs (snd (getOrCreateFeatureStats rt e f c))) = attempts (logs c)"
  by (simp add: getOrCreateFeatureStats_def Let_def logc_def split: option.splits)

lemma processNonNull_logs:
  "attempts (snd (snd (processNonNullValue rt st msg cfg))) = []"
  by (simp add: processNonNullValue_def split: prod.splits)

lemma updateFeatureStats_logs:
  "attempts (logs (updateFeatureStats rt msg cfg e c)) = attempts (logs c)"
proof -
  obtain st c1 where g: "getOrCreateFeatureStats rt e (Name cfg) c = (st, c1)"
    by (cases "getOrCreateFeatureStats rt e (Name cfg) c")
  have l: "attempts (logs c1) = attempts (logs c)"
    using getOrCreate_logs [of rt e "Name cfg" c] g by simp
  obtain p st2 lg where q: "processNonNullValue rt (st\<lparr>count := count st + 1\<rparr>) msg cfg = (p, st2, lg)"
    by (cases "processNonNullValue rt (st\<lparr>count := count st + 1\<rparr>) msg cfg")
  have lg: "attempts lg = []"
    using processNonNull_logs [of rt "st\<lparr>count := count st + 1\<rparr>" msg cfg] q by simp
  show ?thesis
    using g l q lg
    by (simp add: updateFeatureStats_def Let_def storeStats_frame logc_def)
qed

lemma updateFeatureStats_other_window:
  "e' \<noteq> e \<Longrightarrow> windowStates (updateFeatureStats rt msg cfg e c) e' = windowStates c e'"
  by (simp add: updateFeatureStats_windowStates)

lemma processMessage_frame:
  "WindowSize (processMessage rt msg now c) = WindowSize c"
  "featuresToRun (processMessage rt msg now c) = featuresToRun c"
  "output_ch (processMessage rt msg now c) = output_ch c"
  "outputCap (processMessage rt msg now c) = outputCap c"
  "attempts (logs (processMessage rt msg now c)) = attempts (logs c)"
  unfolding processMessage_def Let_def
  by (rule foldl_frame, simp add: updateFeatureStats_frame updateFeatureStats_logs)+

lemma processMessage_other_window:
  assumes "e' \<noteq> Truncate now (WindowSize c) + WindowSize c"
  shows "windowStates (processMessage rt msg now c) e' = windowStates c e'"
  unfolding processMessage_def Let_def
  by (rule foldl_frame [where p = "\<lambda>c. windowStates c e'"])
     (simp add: updateFeatureStats_other_window [OF assms])

lemma Truncate_window:
  "0 < d \<Longrightarrow> t < Truncate t d + d"
  "0 < d \<Longrightarrow> Truncate t d \<le> t"
  "0 < d \<Longrightarrow> (Truncate t d + d) mod d = 0"
proof -
  assume d: "0 < d"
  have m: "0 \<le> t mod d" "t mod d < d" using d by simp_all
  show "t < Truncate t d + d" using d m by (simp add: Truncate_def)
  show "Truncate t d \<le> t" using d m by (simp add: Truncate_def)
  show "(Truncate t d + d) mod d = 0" using d by (simp add: Truncate_def minus_mod_eq_mult_div)
qed

lemma run_after_cutoff:
  assumes "0 < WindowSize c" and "\<forall>e. windowStates c e \<noteq> None \<longrightarrow> T < e"
    and "\<forall>t \<in> set (msgInstants evs). T \<le> t"
  shows "\<exists>A R. attempts (logs (fst (Calculator_Run rt evs c))) = attempts (logs c) @ A \<and>
           (\<forall>p \<in> set A. T < snd p) \<and>
           output_ch (fst (Calculator_Run rt evs c)) = output_ch c @ R \<and>
           (\<forall>r \<in> set R. T < WindowEnd r)"
  using assms
proof (induction rt evs c rule: Calculator_Run.induct)
  case (1 rt c)
  show ?case by simp
next
  case (2 rt msg now evs c)
  let ?c = "processMessage rt msg now c"
  have now: "T \<le> now" using 2(4) by simp
  have w: "0 < WindowSize ?c" using 2(2) by (simp add: processMessage_frame)
  have live: "\<forall>e. windowStates ?c e \<noteq> None \<longrightarrow> T < e"
  proof (intro allI impI)
    fix e assume e: "windowStates ?c e \<noteq> None"
    show "T < e"
    proof (cases "e = Truncate now (WindowSize c) + WindowSize c")
      case True
      then show ?thesis using Truncate_window(1) [OF 2(2), of now] now by simp
    next
      case False
      then show ?thesis using e 2(3) by (simp add: processMessage_other_window)
    qed
  qed
  have "\<forall>t \<in> set (msgInstants evs). T \<le> t" using 2(4) by simp
  from 2(1) [OF w live this] show ?case
    by (simp add: processMessage_frame)
next
  case (3 rt tickTime ord evs c)
  let ?c = "flushWindows rt ord tickTime c"
  have w: "0 < WindowSize ?c" using 3(2) by (simp add: flushWindows_frame)
  have live: "\<forall>e. windowStates ?c e \<noteq> None \<longrightarrow> T < e"
    using 3(3) by (simp add: flushWindows_windowStates)
  have "\<forall>t \<in> set (msgInstants evs). T \<le> t" using 3(4) by simp
  from 3(1) [OF w live this] obtain A R where
    ar: "attempts (logs (fst (Calculator_Run rt evs ?c))) = attempts (logs ?c) @ A"
        "\<forall>p \<in> set A. T < snd p"
        "output_ch (fst (Calculator_Run rt evs ?c)) = output_ch ?c @ R"
        "\<forall>r \<in> set R. T < WindowEnd r"
    by blast
  have fr: "\<forall>r \<in> set (flushResults rt ord tickTime c). T < WindowEnd r"
    using flushResults_sound [of _ rt ord tickTime c] 3(3) by fastforce
  have k: "\<forall>p \<in> set (map resultKey (flushResults rt ord tickTime c)). T < snd p"
    using fr by (auto simp add: resultKey_def)
  have t: "\<forall>r \<in> set (take (room c) (flushResults rt ord tickTime c)). T < WindowEnd r"
    using fr by (auto dest: in_set_takeD)
  have "attempts (logs (fst (Calculator_Run rt (Tick tickTime ord # evs) c))) =
          attempts (logs c) @ (map resultKey (flushResults rt ord tickTime c) @ A)"
    using ar(1) by (simp add: flushWindows_effect)
  moreover have "output_ch (fst (Calculator_Run rt (Tick tickTime ord # evs) c)) =
          output_ch c @ (take (room c) (flushResults rt ord tickTime c) @ R)"
    using ar(3) by (simp add: flushWindows_effect)
  moreover have "\<forall>p \<in> set (map resultKey (flushResults rt ord tickTime c) @ A). T < snd p"
    using k ar(2) by auto
  moreover have "\<forall>r \<in> set (take (room c) (flushResults rt ord tickTime c) @ R). T < WindowEnd r"
    using t ar(4) by auto
  ultimately show ?case by blast
next
  case (4 rt now ord evs c)
  have fr: "\<forall>r \<in> set (flushResults rt ord now c). T < WindowEnd r"
    using flushResults_sound [of _ rt ord now c] 4(2) by fastforce
  have k: "\<forall>p \<in> set (map resultKey (flushResults rt ord now c)). T < snd p"
    using fr by (auto simp add: resultKey_def)
  have t: "\<forall>r \<in> set (take (room c) (flushResults rt ord now c)). T < WindowEnd r"
    using fr by (auto dest: in_set_takeD)
  show ?case using k t by (auto simp add: flushWindows_effect)
next
  case (5 rt err now ord evs c)
  have fr: "\<forall>r \<in> set (flushResults rt ord now c). T < WindowEnd r"
    using flushResults_sound [of _ rt ord now c] 5(2) by fastforce
  have k: "\<forall>p \<in> set (map resultKey (flushResults rt ord now c)). T < snd p"
    using fr by (auto simp add: resultKey_def)
  have t: "\<forall>r \<in> set (take (room c) (flushResults rt ord now c)). T < WindowEnd r"
    using fr by (auto dest: in_set_takeD)
  show ?case using k t by (auto simp add: flushWindows_effect)
qed


lemma processMessage_creates:
  assumes "featuresToRun c \<noteq> []"
  shows "windowStates (processMessage rt msg now c) (Truncate now (WindowSize c) + WindowSize c) \<noteq> None"
proof -
  obtain cfgs cfg where l: "featuresToRun c = cfgs @ [cfg]"
    using assms by (metis append_butlast_last_id)
  show ?thesis
    by (simp add: processMessage_def Let_def l updateFeatureStats_windowStates)
qed

lemma demo_hyps:
  "0 < WindowSize demoLive" "dom (windowStates demoLive) \<subseteq> set (liveOrder demoOrders)"
  "\<forall>t \<in> set (msgInstants demoEvents). 60 \<le> t"
  by (simp_all add: demoLive_def demoOrders_def demoEvents_def demoMsgs_def)

lemma processMessage_single:
  "featuresToRun c = [cfg] \<Longrightarrow> WindowSize c = 60 \<Longrightarrow>
   processMessage rt msg now c = updateFeatureStats rt msg cfg (now - now mod 60 + 60) c"
  by (simp add: processMessage_def Let_def Truncate_def)

lemma demo_later_attempts:
  "attempts (logs (fst (Calculator_Run exact_rt demoEvents (flushWindows exact_rt demoOrders 60 demoLive)))) =
     attempts (logs (flushWindows exact_rt demoOrders 60 demoLive)) @ [(''x'', 120)]"
proof -
  define c1 where "c1 = flushWindows exact_rt demoOrders 60 demoLive"
  define c2 where "c2 = processMessage exact_rt [''x'' \<mapsto> VFloat64 (XVal 9)] 70 c1"
  define c3 where "c3 = processMessage exact_rt [''x'' \<mapsto> VNil] 80 c2"
  let ?ord = "\<lparr>liveOrder = [120], completedOrder = [120], featureOrder = (\<lambda>e. [''x''])\<rparr>"
  have p1: "WindowSize c1 = 60" "featuresToRun c1 = [demoFeature]"
    by (simp_all add: c1_def flushWindows_frame demoLive_def)
  have w1: "windowStates c1 120 = Some demoNextWindow"
    by (simp add: c1_def flushWindows_windowStates demoLive_def)
  have p2: "WindowSize c2 = 60" "featuresToRun c2 = [demoFeature]"
    by (simp_all add: c2_def processMessage_frame p1)
  have e2: "c2 = updateFeatureStats exact_rt [''x'' \<mapsto> VFloat64 (XVal 9)] demoFeature 120 c1"
    unfolding c2_def using processMessage_single [OF p1(2) p1(1)] by simp
  have w2: "windowStates c2 120 =
      Some (demoNextWindow\<lparr>features := (features demoNextWindow)(''x'' \<mapsto>
        \<lparr>count = 2, nullCount = 0, sum_acc = XVal 16, sumSq = XVal 130\<rparr>)\<rparr>)"
    by (simp add: e2 updateFeatureStats_windowStates
        windowAt_def statsAt_def w1 demoFeature_sel ingestStats_def HasNonNull_def GetFloat64_def
        demoNextWindow_def exact_rt_sel)
  have e3: "c3 = updateFeatureStats exact_rt [''x'' \<mapsto> VNil] demoFeature 120 c2"
    unfolding c3_def using processMessage_single [OF p2(2) p2(1)] by simp
  have w3: "windowStates c3 120 =
      Some (demoNextWindow\<lparr>features := (features demoNextWindow)(''x'' \<mapsto>
        \<lparr>count = 3, nullCount = 1, sum_acc = XVal 16, sumSq = XVal 130\<rparr>)\<rparr>)"
    by (simp add: e3 updateFeatureStats_windowStates
        windowAt_def statsAt_def w2 demoFeature_sel ingestStats_def HasNonNull_def)
  have r: "map resultKey (flushResults exact_rt ?ord 120 c3) = [(''x'', 120)]"
    by (simp add: flushResults_def completedOf_def w3 windowResults_def emits_def resultKey_resultOf)
  have l: "attempts (logs c3) = attempts (logs c1)"
    by (simp add: c3_def c2_def processMessage_frame)
  have "fst (Calculator_Run exact_rt demoEvents c1) = flushWindows exact_rt ?ord 120 c3"
    by (simp add: demoEvents_def demoMsgs_def c3_def c2_def)
  then show ?thesis
    unfolding c1_def [symmetric] by (simp add: flushWindows_effect r l)
qed


text \<open>
  C4 (amended). After a flush at the cut-off \<open>T\<close> that ranges over all the live windows,
  no window with an end \<open><= T\<close> is live, and in every continuation of the run in which each
  message is processed at an instant \<open>>= T\<close>, every result that a later flush attempts to
  send, and every result it puts on the output channel, is for a window with an end
  \<open>> T\<close>. A message processed at \<open>t >= T\<close> is assigned the window end
  \<open>Truncate t WindowSize + WindowSize\<close>, which is \<open>> T\<close> for a positive window size, and
  touches no other window.
\<close>

theorem no_result_after_flush:
  assumes "0 < WindowSize c" and "dom (windowStates c) \<subseteq> set (liveOrder ord)"
    and "\<forall>t \<in> set (msgInstants evs). T \<le> t"
  shows "(\<forall>e. e \<le> T \<longrightarrow> windowStates (flushWindows rt ord T c) e = None) \<and>
         (\<exists>A R. attempts (logs (fst (Calculator_Run rt evs (flushWindows rt ord T c)))) =
                   attempts (logs (flushWindows rt ord T c)) @ A \<and>
                 (\<forall>p \<in> set A. T < snd p) \<and>
                 output_ch (fst (Calculator_Run rt evs (flushWindows rt ord T c))) =
                   output_ch (flushWindows rt ord T c) @ R \<and>
                 (\<forall>r \<in> set R. T < WindowEnd r)) \<and>
         (\<forall>msg t. T \<le> t \<longrightarrow>
            T < Truncate t (WindowSize c) + WindowSize c \<and>
            (featuresToRun c \<noteq> [] \<longrightarrow>
               windowStates (processMessage rt msg t c) (Truncate t (WindowSize c) + WindowSize c) \<noteq> None) \<and>
            (\<forall>e. e \<noteq> Truncate t (WindowSize c) + WindowSize c \<longrightarrow>
               windowStates (processMessage rt msg t c) e = windowStates c e))"
proof -
  let ?c = "flushWindows rt ord T c"
  have gone: "\<forall>e. e \<le> T \<longrightarrow> windowStates ?c e = None"
    using assms(2) by (auto simp add: flushWindows_windowStates)
  have live: "\<forall>e. windowStates ?c e \<noteq> None \<longrightarrow> T < e"
    using gone by (meson not_le_imp_less)
  have w: "0 < WindowSize ?c" using assms(1) by (simp add: flushWindows_frame)
  note later = run_after_cutoff [OF w live assms(3), of rt]
  have assign: "\<forall>msg t. T \<le> t \<longrightarrow>
            T < Truncate t (WindowSize c) + WindowSize c \<and>
            (featuresToRun c \<noteq> [] \<longrightarrow>
               windowStates (processMessage rt msg t c) (Truncate t (WindowSize c) + WindowSize c) \<noteq> None) \<and>
            (\<forall>e. e \<noteq> Truncate t (WindowSize c) + WindowSize c \<longrightarrow>
               windowStates (processMessage rt msg t c) e = windowStates c e)"
  proof (intro allI impI conjI)
    fix msg :: "'a DynamicMessage" and t assume "T \<le> t"
    then show "T < Truncate t (WindowSize c) + WindowSize c"
      using Truncate_window(1) [OF assms(1), of t] by simp
  next
    fix msg :: "'a DynamicMessage" and t assume "featuresToRun c \<noteq> []"
    then show "windowStates (processMessage rt msg t c) (Truncate t (WindowSize c) + WindowSize c) \<noteq> None"
      by (rule processMessage_creates)
  next
    fix msg :: "'a DynamicMessage" and t e assume "e \<noteq> Truncate t (WindowSize c) + WindowSize c"
    then show "windowStates (processMessage rt msg t c) e = windowStates c e"
      by (rule processMessage_other_window)
  qed
  from gone later assign show ?thesis by blast
qed

theorem no_result_after_flush_witness:
  "windowStates (flushWindows exact_rt demoOrders 60 demoLive) 60 = None \<and>
   attempts (logs (flushWindows exact_rt demoOrders 60 demoLive)) = [(''x'', 60), (''y'', 60)] \<and>
   attempts (logs (fst (Calculator_Run exact_rt demoEvents (flushWindows exact_rt demoOrders 60 demoLive)))) =
     [(''x'', 60), (''y'', 60), (''x'', 120)] \<and>
   (\<exists>R. output_ch (fst (Calculator_Run exact_rt demoEvents (flushWindows exact_rt demoOrders 60 demoLive))) =
          output_ch (flushWindows exact_rt demoOrders 60 demoLive) @ R \<and>
        list_all (\<lambda>r. 60 < WindowEnd r) R) \<and>
   (60 :: int) < Truncate 70 (WindowSize demoLive) + WindowSize demoLive \<and>
   Truncate 70 (WindowSize demoLive) + WindowSize demoLive = 120"
proof -
  note t = no_result_after_flush [OF demo_hyps, of exact_rt]
  have a: "windowStates (flushWindows exact_rt demoOrders 60 demoLive) 60 = None"
    using t by blast
  have k: "resultKey demoResultX = (''x'', 60)" "resultKey demoResultY = (''y'', 60)"
    by (simp_all add: resultKey_def demoResultX_def demoResultY_def)
  have l: "logs demoLive = []"
    by (simp add: demoLive_def)
  have f: "attempts (logs (flushWindows exact_rt demoOrders 60 demoLive)) = [(''x'', 60), (''y'', 60)]"
    by (simp add: flushWindows_effect demo_flushResults k l)
  have b: "\<exists>R. output_ch (fst (Calculator_Run exact_rt demoEvents (flushWindows exact_rt demoOrders 60 demoLive))) =
             output_ch (flushWindows exact_rt demoOrders 60 demoLive) @ R \<and>
           list_all (\<lambda>r. 60 < WindowEnd r) R"
    using t unfolding list_all_iff by blast
  have c: "(60 :: int) < Truncate 70 (WindowSize demoLive) + WindowSize demoLive"
    using t by simp
  have d: "Truncate 70 (WindowSize demoLive) + WindowSize demoLive = 120"
    by (simp add: Truncate_def demoLive_def)
  from a b c d f demo_later_attempts show ?thesis by simp
qed

text \<open>The claim as stated asks only that the instants of the messages do not
  decrease. In the run below they are \<open>50\<close> and \<open>55\<close>; the flush at \<open>65\<close> sends the result
  of the window that ends at \<open>60\<close>, the message processed at \<open>55\<close> opens that window
  again, and the flush at \<open>70\<close> sends a result for it a second time.\<close>

lemma clockBack_run:
  "attempts (logs (fst (Calculator_Run exact_rt (take 2 clockBackRun) (NewCalculator 60 [demoFeature] 2)))) =
     [(''x'', 60)]"
  "attempts (logs (fst (Calculator_Run exact_rt clockBackRun (NewCalculator 60 [demoFeature] 2)))) =
     [(''x'', 60), (''x'', 60)]"
proof -
  define c0 :: "xfloat Calculator" where "c0 = NewCalculator 60 [demoFeature] 2"
  define c1 where "c1 = processMessage exact_rt [''x'' \<mapsto> VFloat64 (XVal 9)] 50 c0"
  define c2 where "c2 = flushWindows exact_rt clockBackOrders 65 c1"
  define c3 where "c3 = processMessage exact_rt [''x'' \<mapsto> VFloat64 (XVal 9)] 55 c2"
  define c4 where "c4 = flushWindows exact_rt clockBackOrders 70 c3"
  let ?w = "\<lparr>windowStart = 0, windowEnd = 60,
             features = [''x'' \<mapsto> \<lparr>count = 1, nullCount = 0, sum_acc = XVal 9, sumSq = XVal 81\<rparr>]\<rparr>
            :: xfloat windowInfo"
  have o: "liveOrder clockBackOrders = [60]" "completedOrder clockBackOrders = [60]"
          "featureOrder clockBackOrders 60 = [''x'']"
    by (simp_all add: clockBackOrders_def)
  have p0: "WindowSize c0 = 60" "featuresToRun c0 = [demoFeature]" "windowStates c0 = Map.empty"
           "logs c0 = []"
    by (simp_all add: c0_def NewCalculator_def)
  have e1: "c1 = updateFeatureStats exact_rt [''x'' \<mapsto> VFloat64 (XVal 9)] demoFeature 60 c0"
    unfolding c1_def using processMessage_single [OF p0(2) p0(1)] by simp
  have w1: "windowStates c1 60 = Some ?w"
    by (simp add: e1 updateFeatureStats_windowStates windowAt_def statsAt_def p0 demoFeature_sel
        ingestStats_def HasNonNull_def GetFloat64_def newWindowInfo_def zeroStats_def exact_rt_sel)
  have l1: "attempts (logs c1) = []"
    by (simp add: c1_def processMessage_frame p0)
  have r1: "map resultKey (flushResults exact_rt clockBackOrders 65 c1) = [(''x'', 60)]"
    by (simp add: flushResults_def completedOf_def o w1 windowResults_def emits_def resultKey_resultOf)
  have l2: "attempts (logs c2) = [(''x'', 60)]"
    by (simp add: c2_def flushWindows_effect l1 r1)
  have p2: "WindowSize c2 = 60" "featuresToRun c2 = [demoFeature]"
    by (simp_all add: c2_def flushWindows_frame c1_def processMessage_frame p0)
  have w2: "windowStates c2 60 = None"
    by (simp add: c2_def flushWindows_windowStates o)
  have e3: "c3 = updateFeatureStats exact_rt [''x'' \<mapsto> VFloat64 (XVal 9)] demoFeature 60 c2"
    unfolding c3_def using processMessage_single [OF p2(2) p2(1)] by simp
  have w3: "windowStates c3 60 = Some ?w"
    by (simp add: e3 updateFeatureStats_windowStates windowAt_def statsAt_def p2 w2 demoFeature_sel
        ingestStats_def HasNonNull_def GetFloat64_def newWindowInfo_def zeroStats_def exact_rt_sel)
  have l3: "attempts (logs c3) = [(''x'', 60)]"
    by (simp add: c3_def processMessage_frame l2)
  have r3: "map resultKey (flushResults exact_rt clockBackOrders 70 c3) = [(''x'', 60)]"
    by (simp add: flushResults_def completedOf_def o w3 windowResults_def emits_def resultKey_resultOf)
  have l4: "attempts (logs c4) = [(''x'', 60), (''x'', 60)]"
    by (simp add: c4_def flushWindows_effect l3 r3)
  have "fst (Calculator_Run exact_rt (take 2 clockBackRun) c0) = c2"
    by (simp add: clockBackRun_def c2_def c1_def)
  then show "attempts (logs (fst (Calculator_Run exact_rt (take 2 clockBackRun)
                (NewCalculator 60 [demoFeature] 2)))) = [(''x'', 60)]"
    using l2 by (simp add: c0_def)
  have "fst (Calculator_Run exact_rt clockBackRun c0) = c4"
    by (simp add: clockBackRun_def c4_def c3_def c2_def c1_def)
  then show "attempts (logs (fst (Calculator_Run exact_rt clockBackRun
                (NewCalculator 60 [demoFeature] 2)))) = [(''x'', 60), (''x'', 60)]"
    using l4 by (simp add: c0_def)
qed

theorem flush_twice_counterexample:
  "sorted (msgInstants clockBackRun) \<and>
   take 2 clockBackRun = [Msg [''x'' \<mapsto> VFloat64 (XVal 9)] 50, Tick 65 clockBackOrders] \<and>
   attempts (logs (fst (Calculator_Run exact_rt (take 2 clockBackRun) (NewCalculator 60 [demoFeature] 2)))) =
     [(''x'', 60)] \<and>
   attempts (logs (fst (Calculator_Run exact_rt clockBackRun (NewCalculator 60 [demoFeature] 2)))) =
     [(''x'', 60), (''x'', 60)]"
  by (simp add: clockBack_run) (simp add: clockBackRun_def)

subsection \<open>Counters\<close>

lemma unat_inc: "unat (x :: 64 word) \<le> n \<Longrightarrow> Suc n < 2 ^ 64 \<Longrightarrow> unat (x + 1) = Suc (unat x)"
proof -
  assume a: "unat x \<le> n" "Suc n < 2 ^ 64"
  have "unat x + unat (1 :: 64 word) < 2 ^ LENGTH(64)" using a by simp
  then have "unat (x + 1) = unat x + unat (1 :: 64 word)" by (simp only: unat_add_lem)
  then show ?thesis by simp
qed

lemma sint_small: "unat (x :: 64 word) < 2 ^ 63 \<Longrightarrow> sint x = int (unat x)"
proof -
  assume a: "unat x < 2 ^ 63"
  have "int (unat x) < int (2 ^ 63)" using a by (simp only: of_nat_less_iff)
  then have b: "uint x < 2 ^ 63" by (simp only: of_nat_power of_nat_numeral uint_nat)
  have c: "0 \<le> uint x" by simp
  have "- (2 ^ 63) \<le> uint x" using c by (rule order_trans [rotated]) simp
  then have d: "signed_take_bit 63 (uint x) = uint x"
    using b by (rule signed_take_bit_int_eq_self)
  have s: "sint x = signed_take_bit 63 (uint x)" by (simp add: sint_uint)
  have u: "uint x = int (unat x)" by (rule uint_nat)
  show ?thesis using s d u by (simp only:)
qed

lemma ingestStats_counts:
  assumes "unat (nullCount st) \<le> unat (count st)" and "unat (count st) \<le> n" and "Suc n < 2 ^ 64"
  shows "unat (nullCount (ingestStats rt msg cfg st)) \<le> unat (count (ingestStats rt msg cfg st)) \<and>
         0 < unat (count (ingestStats rt msg cfg st)) \<and>
         unat (count (ingestStats rt msg cfg st)) \<le> Suc n"
proof -
  have c: "unat (count st + 1) = Suc (unat (count st))"
    using assms(2,3) by (rule unat_inc)
  have "unat (nullCount st) \<le> n" using assms(1,2) by simp
  then have nc: "unat (nullCount st + 1) = Suc (unat (nullCount st))"
    using assms(3) by (rule unat_inc)
  have cnt: "count (ingestStats rt msg cfg st) = count st + 1"
    by (rule ingestStats_fields)
  have "nullCount (ingestStats rt msg cfg st) = nullCount st \<or>
        nullCount (ingestStats rt msg cfg st) = nullCount st + 1"
    by (simp add: ingestStats_def split: option.splits)
  then show ?thesis
    using c nc cnt assms(1,2) by auto
qed

lemma zeroStats_counts: "count (zeroStats rt) = 0" "nullCount (zeroStats rt) = 0"
  by (simp_all add: zeroStats_def)

lemma update_countsOk:
  assumes ok: "countsOk n c" and n: "Suc n < 2 ^ 64"
  shows "countsOk (Suc n) (updateFeatureStats rt msg cfg e c)"
  unfolding countsOk_def
proof (intro allI impI)
  fix e' w' f' st'
  assume h: "windowStates (updateFeatureStats rt msg cfg e c) e' = Some w' \<and> features w' f' = Some st'"
  have old: "unat (nullCount s) \<le> unat (count s) \<and> 0 < unat (count s) \<and> unat (count s) \<le> Suc n"
    if "windowStates c e1 = Some w1" "features w1 f1 = Some s" for e1 w1 f1 s
    using ok that unfolding countsOk_def by fastforce
  have base: "unat (nullCount (statsAt rt c e (Name cfg))) \<le> unat (count (statsAt rt c e (Name cfg))) \<and>
              unat (count (statsAt rt c e (Name cfg))) \<le> n"
  proof (cases "windowStates c e")
    case None
    then show ?thesis by (simp add: statsAt_def zeroStats_counts)
  next
    case (Some w)
    show ?thesis
    proof (cases "features w (Name cfg)")
      case None
      then show ?thesis using Some by (simp add: statsAt_def zeroStats_counts)
    next
      case (Some s)
      then show ?thesis
        using \<open>windowStates c e = Some w\<close> ok unfolding countsOk_def statsAt_def by fastforce
    qed
  qed
  show "unat (nullCount st') \<le> unat (count st') \<and> 0 < unat (count st') \<and> unat (count st') \<le> Suc n"
  proof (cases "e' = e")
    case False
    then have "windowStates c e' = Some w'" "features w' f' = Some st'"
      using h by (simp_all add: updateFeatureStats_windowStates)
    then show ?thesis by (rule old)
  next
    case True
    have w': "w' = (windowAt c e)\<lparr>features :=
        (features (windowAt c e))(Name cfg \<mapsto> ingestStats rt msg cfg (statsAt rt c e (Name cfg)))\<rparr>"
      using h True by (simp add: updateFeatureStats_windowStates)
    show ?thesis
    proof (cases "f' = Name cfg")
      case True
      then have "st' = ingestStats rt msg cfg (statsAt rt c e (Name cfg))"
        using h w' by simp
      then show ?thesis
        using ingestStats_counts [OF _ _ n, of "statsAt rt c e (Name cfg)" rt msg cfg] base by simp
    next
      case False
      then have f: "features (windowAt c e) f' = Some st'" using h w' by simp
      show ?thesis
      proof (cases "windowStates c e")
        case None
        then show ?thesis using f by (simp add: windowAt_def newWindowInfo_def)
      next
        case (Some w)
        then show ?thesis using f old [of e w f' st'] by (simp add: windowAt_def)
      qed
    qed
  qed
qed

lemma updates_countsOk:
  "countsOk n c \<Longrightarrow> n + length cfgs < 2 ^ 64 \<Longrightarrow>
   countsOk (n + length cfgs) (foldl (\<lambda>c' cfg. updateFeatureStats rt msg cfg e c') c cfgs)"
proof (induction cfgs arbitrary: n c)
  case Nil
  then show ?case by simp
next
  case (Cons cfg cfgs)
  have n: "Suc n < 2 ^ 64" using Cons.prems(2) by simp
  have "countsOk (Suc n) (updateFeatureStats rt msg cfg e c)"
    using Cons.prems(1) n by (rule update_countsOk)
  moreover have "Suc n + length cfgs < 2 ^ 64" using Cons.prems(2) by simp
  ultimately have "countsOk (Suc n + length cfgs)
      (foldl (\<lambda>c' cfg. updateFeatureStats rt msg cfg e c') (updateFeatureStats rt msg cfg e c) cfgs)"
    by (rule Cons.IH)
  then show ?case by simp
qed

lemma processMessage_countsOk:
  "countsOk n c \<Longrightarrow> n + length (featuresToRun c) < 2 ^ 64 \<Longrightarrow>
   countsOk (n + length (featuresToRun c)) (processMessage rt msg now c)"
  unfolding processMessage_def Let_def by (rule updates_countsOk)

lemma flushWindows_countsOk: "countsOk n c \<Longrightarrow> countsOk n (flushWindows rt ord t c)"
  unfolding countsOk_def flushWindows_windowStates
  by (metis option.distinct(1))

lemma countsOk_mono: "countsOk n c \<Longrightarrow> n \<le> m \<Longrightarrow> countsOk m c"
  unfolding countsOk_def by (meson order_trans)

lemma run_countsOk:
  "countsOk n c \<Longrightarrow> n + length (msgInstants evs) * length (featuresToRun c) < 2 ^ 64 \<Longrightarrow>
   countsOk (n + length (msgInstants evs) * length (featuresToRun c)) (fst (Calculator_Run rt evs c))"
proof (induction rt evs c arbitrary: n rule: Calculator_Run.induct)
  case (1 rt c)
  then show ?case by simp
next
  case (2 rt msg now evs c)
  let ?k = "length (featuresToRun c)"
  have b: "n + ?k + length (msgInstants evs) * ?k < 2 ^ 64"
    using 2(3) by (simp add: add.assoc)
  then have "n + ?k < 2 ^ 64" by simp
  with 2(2) have "countsOk (n + ?k) (processMessage rt msg now c)"
    by (rule processMessage_countsOk)
  moreover have "n + ?k + length (msgInstants evs) * length (featuresToRun (processMessage rt msg now c)) < 2 ^ 64"
    using b by (simp add: processMessage_frame)
  ultimately have "countsOk (n + ?k + length (msgInstants evs) * length (featuresToRun (processMessage rt msg now c)))
      (fst (Calculator_Run rt evs (processMessage rt msg now c)))"
    by (rule 2(1))
  then show ?case by (simp add: processMessage_frame add.assoc)
next
  case (3 rt tickTime ord evs c)
  have "countsOk n (flushWindows rt ord tickTime c)"
    using 3(2) by (rule flushWindows_countsOk)
  moreover have "n + length (msgInstants evs) * length (featuresToRun (flushWindows rt ord tickTime c)) < 2 ^ 64"
    using 3(3) by (simp add: flushWindows_frame)
  ultimately have "countsOk (n + length (msgInstants evs) * length (featuresToRun (flushWindows rt ord tickTime c)))
      (fst (Calculator_Run rt evs (flushWindows rt ord tickTime c)))"
    by (rule 3(1))
  then show ?case by (simp add: flushWindows_frame)
next
  case (4 rt now ord evs c)
  have "countsOk n (flushWindows rt ord now c)"
    using 4(1) by (rule flushWindows_countsOk)
  then show ?case by (simp add: countsOk_mono)
next
  case (5 rt err now ord evs c)
  have "countsOk n (flushWindows rt ord now c)"
    using 5(1) by (rule flushWindows_countsOk)
  then show ?case by (simp add: countsOk_mono)
qed


lemma NewCalculator_countsOk: "countsOk 0 (NewCalculator ws fs cap)"
  by (simp add: countsOk_def NewCalculator_def)

lemma demo_run_window:
  "windowStates (fst (Calculator_Run exact_rt demoMsgs (NewCalculator 60 [demoFeature] 2))) 120 =
     Some demoAccumWindow"
  by (simp add: demoMsgs_def processMessage_def Let_def NewCalculator_def Truncate_def
      updateFeatureStats_windowStates updateFeatureStats_frame windowAt_def statsAt_def
      ingestStats_def HasNonNull_def GetFloat64_def demoFeature_sel newWindowInfo_def
      zeroStats_def exact_rt_sel demoAccumWindow_def demoAccum_def)

text \<open>
  C8. In every state that a run of the calculator reaches from a new calculator, every
  stored accumulator has \<open>0 <= nullCount <= count\<close> and \<open>0 < count\<close> (read as signed
  \<open>int64\<close>), as long as the number of calls of \<open>updateFeatureStats\<close>, the messages times
  the configured features, stays below \<open>2^63\<close>. One call adds one to \<open>count\<close> and adds one
  to \<open>nullCount\<close> or leaves it.
\<close>

theorem nullCount_le_count:
  "(length (msgInstants evs) * length fs < 2 ^ 63 \<and>
    windowStates (fst (Calculator_Run rt evs (NewCalculator ws fs cap))) e = Some w \<and>
    features w f = Some st \<longrightarrow>
      sint (nullCount st) \<le> sint (count st) \<and> 0 \<le> sint (nullCount st) \<and> 0 < sint (count st)) \<and>
   count (statsAt rt (updateFeatureStats rt msg cfg e' c) e' (Name cfg)) =
     count (statsAt rt c e' (Name cfg)) + 1 \<and>
   (nullCount (statsAt rt (updateFeatureStats rt msg cfg e' c) e' (Name cfg)) =
      nullCount (statsAt rt c e' (Name cfg)) \<or>
    nullCount (statsAt rt (updateFeatureStats rt msg cfg e' c) e' (Name cfg)) =
      nullCount (statsAt rt c e' (Name cfg)) + 1)"
proof -
  let ?N = "length (msgInstants evs) * length fs"
  let ?c = "fst (Calculator_Run rt evs (NewCalculator ws fs cap))"
  have inv: "sint (nullCount st) \<le> sint (count st) \<and> 0 \<le> sint (nullCount st) \<and> 0 < sint (count st)"
    if b: "?N < 2 ^ 63" and w: "windowStates ?c e = Some w" and st: "features w f = Some st"
  proof -
    have fs: "featuresToRun (NewCalculator ws fs cap) = fs"
      by (simp add: NewCalculator_def)
    have "(2 :: nat) ^ 63 \<le> 2 ^ 64" by (rule power_increasing) simp_all
    then have "0 + ?N < 2 ^ 64" using b by simp
    then have "countsOk (0 + ?N) ?c"
      using run_countsOk [OF NewCalculator_countsOk, of evs ws fs cap rt] fs by simp
    then have u: "unat (nullCount st) \<le> unat (count st)" "0 < unat (count st)" "unat (count st) \<le> ?N"
      using w st unfolding countsOk_def by fastforce+
    have c: "unat (count st) < 2 ^ 63" using u(3) b by (rule le_less_trans)
    have n: "unat (nullCount st) < 2 ^ 63" using u(1) c by (rule le_less_trans)
    have i: "int (unat (nullCount st)) \<le> int (unat (count st))"
      using u(1) by (simp only: of_nat_le_iff)
    have j: "0 < int (unat (count st))"
      using u(2) by (simp only: of_nat_0_less_iff)
    have k: "0 \<le> int (unat (nullCount st))"
      by (simp only: of_nat_0_le_iff)
    show ?thesis
      unfolding sint_small [OF c] sint_small [OF n] using i j k by blast
  qed
  have step: "count (statsAt rt (updateFeatureStats rt msg cfg e' c) e' (Name cfg)) =
     count (statsAt rt c e' (Name cfg)) + 1 \<and>
   (nullCount (statsAt rt (updateFeatureStats rt msg cfg e' c) e' (Name cfg)) =
      nullCount (statsAt rt c e' (Name cfg)) \<or>
    nullCount (statsAt rt (updateFeatureStats rt msg cfg e' c) e' (Name cfg)) =
      nullCount (statsAt rt c e' (Name cfg)) + 1)"
    unfolding statsAt_update_same
    by (simp add: ingestStats_def split: option.splits)
  from inv step show ?thesis by blast
qed

theorem nullCount_le_count_witness:
  "windowStates (fst (Calculator_Run exact_rt demoMsgs (NewCalculator 60 [demoFeature] 2))) 120 =
     Some demoAccumWindow \<and>
   features demoAccumWindow ''x'' = Some demoAccum \<and>
   sint (nullCount demoAccum) \<le> sint (count demoAccum) \<and>
   0 \<le> sint (nullCount demoAccum) \<and> 0 < sint (count demoAccum)"
proof -
  have f: "features demoAccumWindow ''x'' = Some demoAccum"
    by (simp add: demoAccumWindow_def)
  have l: "length (msgInstants demoMsgs) * length [demoFeature] < 2 ^ 63"
    by (simp add: demoMsgs_def)
  show ?thesis
    using nullCount_le_count [where evs = demoMsgs and fs = "[demoFeature]" and rt = exact_rt
        and ws = 60 and cap = 2 and e = 120 and w = demoAccumWindow and f = "''x''"
        and st = demoAccum] demo_run_window f l
    by blast
qed

end
